theory Spec2Isabelle
  imports Main
begin

section \<open>Strings\<close>

text \<open>
  A Python \<^verbatim>\<open>str\<close> is a sequence of Unicode code points.  A code point is modelled by
  its number, a string by the list of its code points; \<open>ch\<close> and \<open>cp\<close> turn an ASCII
  character and an ASCII literal into that representation.
\<close>

type_synonym cadena = "nat list"

abbreviation ch :: "char \<Rightarrow> nat" where
  "ch c \<equiv> of_char c"

abbreviation cp :: "string \<Rightarrow> cadena" where
  "cp s \<equiv> map of_char s"

text \<open>The one non-ASCII symbol of the grammar, the Greek letter epsilon (U+03B5).\<close>

abbreviation EPSILON :: cadena where
  "EPSILON \<equiv> [949]"

text \<open>
  \<^verbatim>\<open>str.strip()\<close> without argument removes leading and trailing whitespace, that is the
  code points for which \<^verbatim>\<open>str.isspace\<close> holds.
\<close>

definition es_espacio :: "nat \<Rightarrow> bool" where
  "es_espacio c \<longleftrightarrow>
     (9 \<le> c \<and> c \<le> 13) \<or> (28 \<le> c \<and> c \<le> 32) \<or> c = 133 \<or> c = 160 \<or> c = 5760 \<or>
     (8192 \<le> c \<and> c \<le> 8202) \<or> c = 8232 \<or> c = 8233 \<or> c = 8239 \<or> c = 8287 \<or> c = 12288"

definition strip :: "cadena \<Rightarrow> cadena" where
  "strip s = rev (dropWhile es_espacio (rev (dropWhile es_espacio s)))"

definition startswith :: "cadena \<Rightarrow> nat \<Rightarrow> bool" where
  "startswith s c \<longleftrightarrow> (case s of [] \<Rightarrow> False | x # _ \<Rightarrow> x = c)"

definition endswith :: "cadena \<Rightarrow> nat \<Rightarrow> bool" where
  "endswith s c \<longleftrightarrow> (case rev s of [] \<Rightarrow> False | x # _ \<Rightarrow> x = c)"

text \<open>The slice \<^verbatim>\<open>s[1:-1]\<close>: indices \<open>1\<close> up to \<open>len(s) - 2\<close>, empty when \<open>len(s) < 3\<close>.\<close>

definition recorte :: "cadena \<Rightarrow> cadena" where
  "recorte s = drop 1 (take (length s - 1) s)"

text \<open>The slice \<^verbatim>\<open>s[i:j]\<close> for \<open>0 \<le> i\<close> and \<open>0 \<le> j\<close>.\<close>

definition rebanada :: "cadena \<Rightarrow> nat \<Rightarrow> nat \<Rightarrow> cadena" where
  "rebanada s i j = take (j - i) (drop i s)"

section \<open>Diagnostics\<close>

text \<open>
  The diagnostics are the message strings of the source, one constructor per format
  string, with the interpolated value as argument:
  \<^item> \<open>FaltanLlaves\<close>: "La cadena debe empezar con '{' y terminar con '}'";
  \<^item> \<open>LlavesDesbalanceadas\<close>: "Llaves desbalanceadas";
  \<^item> \<open>CaracterInvalido c\<close>: "Caracter invalido: 'c'";
  \<^item> \<open>ExcedeLimiteNivel n\<close>: "Excede el limite de 3 niveles de anidacion (nivel n)",
    the text stored in the node;
  \<^item> \<open>ExcedeLimite\<close>: "Excede el limite de 3 niveles de anidacion", the text stored in
    the global list;
  \<^item> \<open>SaldoInsuficiente s\<close>: "Saldo insuficiente para comprar refresco (saldo: s,
    necesario: 3)";
  \<^item> \<open>ExcedeMaximoRefrescos\<close>: "Excede el maximo de 3 refrescos por bloque";
  \<^item> \<open>NoHayMonedas\<close>: "No hay monedas para devolver".
\<close>

datatype mensaje =
    FaltanLlaves
  | LlavesDesbalanceadas
  | CaracterInvalido nat
  | ExcedeLimiteNivel int
  | ExcedeLimite
  | SaldoInsuficiente int
  | ExcedeMaximoRefrescos
  | NoHayMonedas

section \<open>Nodes of the derivation tree\<close>

text \<open>
  Class \<^verbatim>\<open>Nodo\<close>.  The field \<^verbatim>\<open>padre\<close> is not stored: a node is only ever decorated
  by a call made from its parent (or is the root), and the only reads of \<^verbatim>\<open>padre\<close> are
  \<^verbatim>\<open>nodo.padre.saldo\<close> and \<^verbatim>\<open>nodo.padre.refrescos_comprados\<close>, so the decoration
  function receives the two values its parent holds at the time of the call
  (\<open>None\<close> for the root, whose \<^verbatim>\<open>padre\<close> is \<^verbatim>\<open>None\<close>).
\<close>

datatype Nodo = Nodo
  (simbolo: cadena)
  (tipo: cadena)
  (hijos: "Nodo list")
  (saldo: int)
  (valido: bool)
  (nivel: int)
  (refrescos_comprados: int)
  (errores: "mensaje list")

definition nuevo_nodo :: "cadena \<Rightarrow> cadena \<Rightarrow> Nodo" where
  "nuevo_nodo s t = Nodo s t [] 0 True 0 0 []"

definition set_hijos :: "Nodo list \<Rightarrow> Nodo \<Rightarrow> Nodo" where
  "set_hijos h n = Nodo (simbolo n) (tipo n) h (saldo n) (valido n) (nivel n)
     (refrescos_comprados n) (errores n)"

definition set_saldo :: "int \<Rightarrow> Nodo \<Rightarrow> Nodo" where
  "set_saldo v n = Nodo (simbolo n) (tipo n) (hijos n) v (valido n) (nivel n)
     (refrescos_comprados n) (errores n)"

definition set_valido :: "bool \<Rightarrow> Nodo \<Rightarrow> Nodo" where
  "set_valido v n = Nodo (simbolo n) (tipo n) (hijos n) (saldo n) v (nivel n)
     (refrescos_comprados n) (errores n)"

definition set_nivel :: "int \<Rightarrow> Nodo \<Rightarrow> Nodo" where
  "set_nivel v n = Nodo (simbolo n) (tipo n) (hijos n) (saldo n) (valido n) v
     (refrescos_comprados n) (errores n)"

definition set_refrescos :: "int \<Rightarrow> Nodo \<Rightarrow> Nodo" where
  "set_refrescos v n = Nodo (simbolo n) (tipo n) (hijos n) (saldo n) (valido n) (nivel n)
     v (errores n)"

text \<open>\<^verbatim>\<open>nodo.errores.append(e)\<close> is \<open>extend_errores [e]\<close>.\<close>

definition extend_errores :: "mensaje list \<Rightarrow> Nodo \<Rightarrow> Nodo" where
  "extend_errores es n = Nodo (simbolo n) (tipo n) (hijos n) (saldo n) (valido n) (nivel n)
     (refrescos_comprados n) (errores n @ es)"

text \<open>The values read through \<^verbatim>\<open>nodo.padre\<close>, \<open>0\<close> when there is no parent.\<close>

definition saldo_padre :: "(int \<times> int) option \<Rightarrow> int" where
  "saldo_padre padre = (case padre of None \<Rightarrow> 0 | Some (s, r) \<Rightarrow> s)"

definition refrescos_padre :: "(int \<times> int) option \<Rightarrow> int" where
  "refrescos_padre padre = (case padre of None \<Rightarrow> 0 | Some (s, r) \<Rightarrow> r)"

section \<open>Syntax validation\<close>

text \<open>
  The brace loop of \<^verbatim>\<open>_validar_sintaxis\<close>: \<open>None\<close> when the counter becomes negative
  (the early return), otherwise the counter at the end.
\<close>

fun balance_llaves :: "cadena \<Rightarrow> int \<Rightarrow> int option" where
  "balance_llaves [] niv = Some niv"
| "balance_llaves (c # cs) niv =
     (if c = ch CHR ''{'' then balance_llaves cs (niv + 1)
      else if c = ch CHR ''}'' then
        (if niv - 1 < 0 then None else balance_llaves cs (niv - 1))
      else balance_llaves cs niv)"

text \<open>The character loop: the first character outside \<^verbatim>\<open>set('{}$R< ')\<close>.\<close>

fun primer_invalido :: "cadena \<Rightarrow> nat option" where
  "primer_invalido [] = None"
| "primer_invalido (c # cs) =
     (if c \<notin> set (cp ''{}$R< '') then Some c else primer_invalido cs)"

text \<open>
  \<^verbatim>\<open>_validar_sintaxis\<close> takes the global list \<^verbatim>\<open>self.errores_globales\<close> and returns its
  result with the list as it leaves it.
\<close>

definition validar_sintaxis :: "mensaje list \<Rightarrow> cadena \<Rightarrow> bool \<times> mensaje list" where
  "validar_sintaxis eg cadena0 =
     (let cadena = strip cadena0 in
      if \<not> startswith cadena (ch CHR ''{'') \<or> \<not> endswith cadena (ch CHR ''}'') then
        (False, eg @ [FaltanLlaves])
      else
        (case balance_llaves cadena 0 of
           None \<Rightarrow> (False, eg @ [LlavesDesbalanceadas])
         | Some niv \<Rightarrow>
             if niv \<noteq> 0 then (False, eg @ [LlavesDesbalanceadas])
             else
               (case primer_invalido cadena of
                  Some c \<Rightarrow> (False, eg @ [CaracterInvalido c])
                | None \<Rightarrow> (True, eg))))"

section \<open>Tree construction\<close>

text \<open>
  The inner \<^verbatim>\<open>while j < len(contenido) and nivel > 0\<close> of \<^verbatim>\<open>_procesar_contenido\<close>, which
  looks for the closing brace; the result is the final \<open>j\<close>.
\<close>

function buscar_cierre :: "cadena \<Rightarrow> nat \<Rightarrow> int \<Rightarrow> nat" where
  "buscar_cierre contenido j niv =
     (if j < length contenido \<and> niv > 0 then
        buscar_cierre contenido (j + 1)
          (if contenido ! j = ch CHR ''{'' then niv + 1
           else if contenido ! j = ch CHR ''}'' then niv - 1
           else niv)
      else j)"
  by pat_completeness auto
termination
  by (relation "measure (\<lambda>(contenido, j, niv). length contenido - j)") auto

declare buscar_cierre.simps [simp del]

lemma buscar_cierre_ge: "j \<le> buscar_cierre contenido j niv"
proof (induction contenido j niv rule: buscar_cierre.induct)
  case (1 contenido j niv)
  show ?case
  proof (cases "j < length contenido \<and> niv > 0")
    case True
    let ?niv = "if contenido ! j = ch CHR ''{'' then niv + 1
           else if contenido ! j = ch CHR ''}'' then niv - 1 else niv"
    from 1 True have "j + 1 \<le> buscar_cierre contenido (j + 1) ?niv"
      by simp
    moreover from True have "buscar_cierre contenido j niv = buscar_cierre contenido (j + 1) ?niv"
      by (subst buscar_cierre.simps) simp
    ultimately show ?thesis
      by linarith
  next
    case False
    then show ?thesis
      by (subst buscar_cierre.simps) auto
  qed
qed

lemma buscar_cierre_le: "j \<le> length contenido \<Longrightarrow> buscar_cierre contenido j niv \<le> length contenido"
proof (induction contenido j niv rule: buscar_cierre.induct)
  case (1 contenido j niv)
  show ?case
  proof (cases "j < length contenido \<and> niv > 0")
    case True
    with 1 show ?thesis
      by (subst buscar_cierre.simps) simp
  next
    case False
    with 1 show ?thesis
      by (subst buscar_cierre.simps) auto
  qed
qed

lemma length_recorte: "length (recorte s) = length s - 2"
  by (simp add: recorte_def)

lemma length_rebanada: "length (rebanada s i j) = min (j - i) (length s - i)"
  by (simp add: rebanada_def)

text \<open>
  \<^verbatim>\<open>_procesar_contenido(nodo_c, contenido)\<close> adds children to \<^verbatim>\<open>nodo_c\<close>, which has none
  when it is called.  \<open>procesar_contenido contenido\<close> is the list of children that
  \<^verbatim>\<open>nodo_c\<close> ends with, and \<open>bucle contenido i\<close> the children that the \<^verbatim>\<open>while\<close> loop gives
  the current \<^verbatim>\<open>nodo_c\<close> from index \<open>i\<close> on: none when the loop runs out of characters,
  otherwise the pair \<^verbatim>\<open>nodo_a\<close>, \<^verbatim>\<open>nodo_c_siguiente\<close>, the latter holding either the
  epsilon leaf (the \<^verbatim>\<open>break\<close>) or what the next iterations add to it.
\<close>

function procesar_contenido :: "cadena \<Rightarrow> Nodo list"
  and bucle :: "cadena \<Rightarrow> nat \<Rightarrow> Nodo list" where
  "procesar_contenido contenido =
     (if contenido = [] then [nuevo_nodo EPSILON (cp ''terminal'')]
      else bucle contenido 0)"
| "bucle contenido i =
     (if i < length contenido then
        (let char = contenido ! i in
         if char = ch CHR '' '' then bucle contenido (i + 1)
         else
           (let j = buscar_cierre contenido (i + 1) 1;
                hijos_a =
                  (if char \<in> set (cp ''$R<'') then [nuevo_nodo [char] (cp ''terminal'')]
                   else if char = ch CHR ''{'' then
                     [nuevo_nodo (cp ''{'') (cp ''terminal''),
                      set_hijos (procesar_contenido (recorte (rebanada contenido i j)))
                        (nuevo_nodo (cp ''C'') (cp ''no_terminal'')),
                      nuevo_nodo (cp ''}'') (cp ''terminal'')]
                   else []);
                i' =
                  (if char \<in> set (cp ''$R<'') then i + 1
                   else if char = ch CHR ''{'' then j
                   else i + 1);
                contenido_restante = strip (drop i' contenido)
            in [set_hijos hijos_a (nuevo_nodo (cp ''A'') (cp ''no_terminal'')),
                set_hijos
                  (if contenido_restante = [] then [nuevo_nodo EPSILON (cp ''terminal'')]
                   else bucle contenido i')
                  (nuevo_nodo (cp ''C'') (cp ''no_terminal''))]))
      else [])"
  by pat_completeness auto
termination
proof (relation "measures
    [\<lambda>x. case x of Inl c \<Rightarrow> length c | Inr (c, i) \<Rightarrow> length c,
     \<lambda>x. case x of Inl c \<Rightarrow> length c + 1 | Inr (c, i) \<Rightarrow> length c - i]", goal_cases)
  case 1
  show ?case by simp
next
  case (2 contenido)
  then show ?case by simp
next
  case (3 contenido i char)
  then show ?case by auto
next
  case (4 contenido i char j)
  have "i + 1 \<le> buscar_cierre contenido (i + 1) 1"
    by (rule buscar_cierre_ge)
  with 4 show ?case
    by (auto simp: length_recorte length_rebanada)
next
  case (5 contenido i char j hijos_a i' contenido_restante)
  have "i + 1 \<le> buscar_cierre contenido (i + 1) 1"
    by (rule buscar_cierre_ge)
  with 5 show ?case
    by (auto split: if_splits)
qed

declare procesar_contenido.simps [simp del] bucle.simps [simp del]

text \<open>\<^verbatim>\<open>_construir_arbol\<close>.\<close>

definition construir_arbol :: "cadena \<Rightarrow> Nodo" where
  "construir_arbol cadena =
     (let contenido = strip (recorte cadena) in
      set_hijos
        [nuevo_nodo (cp ''{'') (cp ''terminal''),
         set_hijos (procesar_contenido contenido) (nuevo_nodo (cp ''C'') (cp ''no_terminal'')),
         nuevo_nodo (cp ''}'') (cp ''terminal'')]
        (nuevo_nodo (cp ''P'') (cp ''no_terminal'')))"

section \<open>Decoration\<close>

lemma size_hijos_nth: "i < length (hijos n) \<Longrightarrow> size (hijos n ! i) < size n"
proof (cases n)
  case (Nodo s t h sa v ni r e)
  assume "i < length (hijos n)"
  with Nodo have "h ! i \<in> set h"
    by simp
  then have "size (h ! i) \<le> size_list size h"
    by (simp add: size_list_estimation')
  with Nodo show ?thesis
    by simp
qed

lemma size_setters:
  "size (set_saldo a n) = size n"
  "size (set_valido b n) = size n"
  "size (set_nivel c n) = size n"
  "size (set_refrescos d n) = size n"
  "size (extend_errores es n) = size n"
  by (cases n; simp add: set_saldo_def set_valido_def set_nivel_def set_refrescos_def
      extend_errores_def)+

lemma sel_set_hijos:
  "simbolo (set_hijos h n) = simbolo n" "tipo (set_hijos h n) = tipo n"
  "hijos (set_hijos h n) = h" "saldo (set_hijos h n) = saldo n"
  "valido (set_hijos h n) = valido n" "nivel (set_hijos h n) = nivel n"
  "refrescos_comprados (set_hijos h n) = refrescos_comprados n"
  "errores (set_hijos h n) = errores n"
  by (simp_all add: set_hijos_def)

lemma sel_set_saldo:
  "simbolo (set_saldo a n) = simbolo n" "tipo (set_saldo a n) = tipo n"
  "hijos (set_saldo a n) = hijos n" "saldo (set_saldo a n) = a"
  "valido (set_saldo a n) = valido n" "nivel (set_saldo a n) = nivel n"
  "refrescos_comprados (set_saldo a n) = refrescos_comprados n"
  "errores (set_saldo a n) = errores n"
  by (simp_all add: set_saldo_def)

lemma sel_set_valido:
  "simbolo (set_valido b n) = simbolo n" "tipo (set_valido b n) = tipo n"
  "hijos (set_valido b n) = hijos n" "saldo (set_valido b n) = saldo n"
  "valido (set_valido b n) = b" "nivel (set_valido b n) = nivel n"
  "refrescos_comprados (set_valido b n) = refrescos_comprados n"
  "errores (set_valido b n) = errores n"
  by (simp_all add: set_valido_def)

lemma sel_set_nivel:
  "simbolo (set_nivel c n) = simbolo n" "tipo (set_nivel c n) = tipo n"
  "hijos (set_nivel c n) = hijos n" "saldo (set_nivel c n) = saldo n"
  "valido (set_nivel c n) = valido n" "nivel (set_nivel c n) = c"
  "refrescos_comprados (set_nivel c n) = refrescos_comprados n"
  "errores (set_nivel c n) = errores n"
  by (simp_all add: set_nivel_def)

lemma sel_set_refrescos:
  "simbolo (set_refrescos d n) = simbolo n" "tipo (set_refrescos d n) = tipo n"
  "hijos (set_refrescos d n) = hijos n" "saldo (set_refrescos d n) = saldo n"
  "valido (set_refrescos d n) = valido n" "nivel (set_refrescos d n) = nivel n"
  "refrescos_comprados (set_refrescos d n) = d"
  "errores (set_refrescos d n) = errores n"
  by (simp_all add: set_refrescos_def)

lemma sel_extend_errores:
  "simbolo (extend_errores es n) = simbolo n" "tipo (extend_errores es n) = tipo n"
  "hijos (extend_errores es n) = hijos n" "saldo (extend_errores es n) = saldo n"
  "valido (extend_errores es n) = valido n" "nivel (extend_errores es n) = nivel n"
  "refrescos_comprados (extend_errores es n) = refrescos_comprados n"
  "errores (extend_errores es n) = errores n @ es"
  by (simp_all add: extend_errores_def)

lemmas sel_set = sel_set_hijos sel_set_saldo sel_set_valido sel_set_nivel sel_set_refrescos
  sel_extend_errores

text \<open>
  \<^verbatim>\<open>_decorar_arbol(nodo, nivel)\<close>, with the global list \<^verbatim>\<open>self.errores_globales\<close> passed
  in and returned, and \<open>padre\<close> the pair \<^verbatim>\<open>(nodo.padre.saldo,
  nodo.padre.refrescos_comprados)\<close>.  The node is mutated in place in the source; here the
  decorated node is returned, its decorated children stored back at their index.

  The loop that closes the source function ("Decorar hijos restantes") calls
  \<^verbatim>\<open>_decorar_arbol\<close> on a child only when \<^verbatim>\<open>not hasattr(hijo, 'saldo')\<close>;  \<^verbatim>\<open>Nodo.__init__\<close>
  sets \<^verbatim>\<open>saldo\<close> on every node, so the loop never calls anything and changes nothing.
\<close>

function decorar_arbol ::
  "(int \<times> int) option \<Rightarrow> Nodo \<Rightarrow> int \<Rightarrow> mensaje list \<Rightarrow> Nodo \<times> mensaje list" where
  "decorar_arbol padre nodo0 niv eg =
     (let nodo = set_nivel niv nodo0 in
      if niv > 3 then
        (extend_errores [ExcedeLimiteNivel niv] (set_valido False nodo), eg @ [ExcedeLimite])
      else if simbolo nodo = cp ''P'' then
        (if length (hijos nodo) \<ge> 2 then
           (case decorar_arbol (Some (saldo nodo, refrescos_comprados nodo))
                   (hijos nodo ! 1) niv eg of
              (nodo_c, eg1) \<Rightarrow>
                (extend_errores (errores nodo_c)
                   (set_refrescos (refrescos_comprados nodo_c)
                      (set_valido (valido nodo_c)
                         (set_saldo (saldo nodo_c)
                            (set_hijos ((hijos nodo)[1 := nodo_c]) nodo)))),
                 eg1))
         else (nodo, eg))
      else if simbolo nodo = cp ''C'' then
        (if length (hijos nodo) = 1 \<and> simbolo (hijos nodo ! 0) = EPSILON then
           (set_refrescos 0 (set_valido True (set_saldo 0 nodo)), eg)
         else if length (hijos nodo) = 2 then
           (case decorar_arbol (Some (saldo nodo, refrescos_comprados nodo))
                   (hijos nodo ! 0) niv eg of
              (nodo_a, eg1) \<Rightarrow>
                (let nodo1 =
                       extend_errores (errores nodo_a)
                         (set_refrescos (refrescos_comprados nodo_a)
                            (set_valido (valido nodo_a)
                               (set_saldo (saldo nodo_a)
                                  (set_hijos ((hijos nodo)[0 := nodo_a]) nodo))));
                     sembrado =
                       set_refrescos (refrescos_comprados nodo1)
                         (set_saldo (saldo nodo1) (hijos nodo ! 1))
                 in
                   (case decorar_arbol (Some (saldo nodo1, refrescos_comprados nodo1))
                           sembrado niv eg1 of
                      (nodo_c, eg2) \<Rightarrow>
                        (extend_errores (errores nodo_c)
                           (set_refrescos (refrescos_comprados nodo_c)
                              (set_valido (valido nodo1 \<and> valido nodo_c)
                                 (set_saldo (saldo nodo_c)
                                    (set_hijos ((hijos nodo1)[1 := nodo_c]) nodo1)))),
                         eg2))))
         else (nodo, eg))
      else if simbolo nodo = cp ''A'' then
        (if length (hijos nodo) = 1 then
           (let hijo = hijos nodo ! 0 in
            if simbolo hijo = cp ''$'' then
              (set_refrescos (refrescos_padre padre)
                 (set_valido True (set_saldo (saldo_padre padre + 1) nodo)),
               eg)
            else if simbolo hijo = cp ''R'' then
              (let saldo_actual = saldo_padre padre;
                   refrescos_actual = refrescos_padre padre
               in
                 if saldo_actual < 3 then
                   (set_refrescos refrescos_actual
                      (set_saldo saldo_actual
                         (extend_errores [SaldoInsuficiente saldo_actual]
                            (set_valido False nodo))),
                    eg)
                 else if refrescos_actual \<ge> 3 then
                   (set_refrescos refrescos_actual
                      (set_saldo saldo_actual
                         (extend_errores [ExcedeMaximoRefrescos] (set_valido False nodo))),
                    eg)
                 else
                   (set_refrescos (refrescos_actual + 1)
                      (set_valido True (set_saldo (saldo_actual - 3) nodo)),
                    eg))
            else if simbolo hijo = cp ''<'' then
              (let saldo_actual = saldo_padre padre in
                 (set_refrescos (refrescos_padre padre)
                    (if saldo_actual < 1 then
                       set_saldo saldo_actual
                         (extend_errores [NoHayMonedas] (set_valido False nodo))
                     else set_valido True (set_saldo (saldo_actual - 1) nodo)),
                  eg))
            else (nodo, eg))
         else if length (hijos nodo) = 3 then
           (case decorar_arbol (Some (saldo nodo, refrescos_comprados nodo))
                   (hijos nodo ! 1) (niv + 1) eg of
              (nodo_c, eg1) \<Rightarrow>
                (extend_errores (errores nodo_c)
                   (set_refrescos (refrescos_padre padre)
                      (set_valido (valido nodo_c)
                         (set_saldo (saldo_padre padre)
                            (set_hijos ((hijos nodo)[1 := nodo_c]) nodo)))),
                 eg1))
         else (nodo, eg))
      else (nodo, eg))"
  by pat_completeness auto
termination
proof (relation "measure (\<lambda>(padre, nodo, niv, eg). size nodo)", goal_cases)
  case 1
  show ?case by simp
next
  case (2 padre nodo0 niv eg nodo)
  then show ?case
    by (simp add: sel_set size_hijos_nth)
next
  case (3 padre nodo0 niv eg nodo)
  then show ?case
    by (simp add: sel_set size_hijos_nth)
next
  case 4
  then show ?case
    by (simp add: sel_set size_setters size_hijos_nth)
next
  case (5 padre nodo0 niv eg nodo)
  then show ?case
    by (simp add: sel_set size_hijos_nth)
qed

declare decorar_arbol.simps [simp del]

text \<open>The branches of \<open>decorar_arbol\<close>, one equation each.\<close>

lemma decorar_limite:
  "niv > 3 \<Longrightarrow> decorar_arbol padre nodo niv eg =
     (extend_errores [ExcedeLimiteNivel niv] (set_valido False (set_nivel niv nodo)),
      eg @ [ExcedeLimite])"
  by (subst decorar_arbol.simps) (simp add: Let_def)

lemma decorar_P:
  assumes "niv \<le> 3" "simbolo nodo = cp ''P''" "2 \<le> length (hijos nodo)"
  shows "decorar_arbol padre nodo niv eg =
     (case decorar_arbol (Some (saldo nodo, refrescos_comprados nodo)) (hijos nodo ! 1) niv eg of
        (nodo_c, eg1) \<Rightarrow>
          (extend_errores (errores nodo_c)
             (set_refrescos (refrescos_comprados nodo_c)
                (set_valido (valido nodo_c)
                   (set_saldo (saldo nodo_c)
                      (set_hijos ((hijos nodo)[1 := nodo_c]) (set_nivel niv nodo))))),
           eg1))"
  using assms by (subst decorar_arbol.simps) (simp add: Let_def sel_set)

lemma decorar_P_corto:
  assumes "niv \<le> 3" "simbolo nodo = cp ''P''" "length (hijos nodo) < 2"
  shows "decorar_arbol padre nodo niv eg = (set_nivel niv nodo, eg)"
  using assms by (subst decorar_arbol.simps) (simp add: Let_def sel_set)

lemma decorar_C_epsilon:
  assumes "niv \<le> 3" "simbolo nodo = cp ''C''" "length (hijos nodo) = 1"
    "simbolo (hijos nodo ! 0) = EPSILON"
  shows "decorar_arbol padre nodo niv eg =
     (set_refrescos 0 (set_valido True (set_saldo 0 (set_nivel niv nodo))), eg)"
  using assms by (subst decorar_arbol.simps) (simp add: Let_def sel_set)

lemma decorar_C_cadena:
  assumes "niv \<le> 3" "simbolo nodo = cp ''C''" "length (hijos nodo) = 2"
  shows "decorar_arbol padre nodo niv eg =
     (case decorar_arbol (Some (saldo nodo, refrescos_comprados nodo)) (hijos nodo ! 0) niv eg of
        (nodo_a, eg1) \<Rightarrow>
          (case decorar_arbol (Some (saldo nodo_a, refrescos_comprados nodo_a))
                  (set_refrescos (refrescos_comprados nodo_a)
                     (set_saldo (saldo nodo_a) (hijos nodo ! 1))) niv eg1 of
             (nodo_c, eg2) \<Rightarrow>
               (extend_errores (errores nodo_a @ errores nodo_c)
                  (set_refrescos (refrescos_comprados nodo_c)
                     (set_valido (valido nodo_a \<and> valido nodo_c)
                        (set_saldo (saldo nodo_c)
                           (set_hijos [nodo_a, nodo_c] (set_nivel niv nodo))))),
                eg2)))"
proof -
  from assms(3) obtain x y where h: "hijos nodo = [x, y]"
    by (cases "hijos nodo"; cases "tl (hijos nodo)") auto
  show ?thesis
    using assms h
    by (subst decorar_arbol.simps)
      (simp add: Let_def sel_set split: prod.splits,
       simp add: set_hijos_def set_saldo_def set_valido_def set_refrescos_def extend_errores_def set_nivel_def)
qed

lemma decorar_C_otro:
  assumes "niv \<le> 3" "simbolo nodo = cp ''C''"
    "\<not> (length (hijos nodo) = 1 \<and> simbolo (hijos nodo ! 0) = EPSILON)"
    "length (hijos nodo) \<noteq> 2"
  shows "decorar_arbol padre nodo niv eg = (set_nivel niv nodo, eg)"
  using assms by (subst decorar_arbol.simps) (auto simp add: Let_def sel_set)

lemma decorar_A_moneda:
  assumes "niv \<le> 3" "simbolo nodo = cp ''A''" "length (hijos nodo) = 1"
    "simbolo (hijos nodo ! 0) = cp ''$''"
  shows "decorar_arbol padre nodo niv eg =
     (set_refrescos (refrescos_padre padre)
        (set_valido True (set_saldo (saldo_padre padre + 1) (set_nivel niv nodo))), eg)"
  using assms by (subst decorar_arbol.simps) (simp add: Let_def sel_set)

lemma decorar_A_refresco:
  assumes "niv \<le> 3" "simbolo nodo = cp ''A''" "length (hijos nodo) = 1"
    "simbolo (hijos nodo ! 0) = cp ''R''"
  shows "decorar_arbol padre nodo niv eg =
     (if saldo_padre padre < 3 then
        set_refrescos (refrescos_padre padre)
          (set_saldo (saldo_padre padre)
             (extend_errores [SaldoInsuficiente (saldo_padre padre)]
                (set_valido False (set_nivel niv nodo))))
      else if refrescos_padre padre \<ge> 3 then
        set_refrescos (refrescos_padre padre)
          (set_saldo (saldo_padre padre)
             (extend_errores [ExcedeMaximoRefrescos] (set_valido False (set_nivel niv nodo))))
      else
        set_refrescos (refrescos_padre padre + 1)
          (set_valido True (set_saldo (saldo_padre padre - 3) (set_nivel niv nodo))),
      eg)"
  using assms by (subst decorar_arbol.simps) (simp add: Let_def sel_set)

lemma decorar_A_devolver:
  assumes "niv \<le> 3" "simbolo nodo = cp ''A''" "length (hijos nodo) = 1"
    "simbolo (hijos nodo ! 0) = cp ''<''"
  shows "decorar_arbol padre nodo niv eg =
     (set_refrescos (refrescos_padre padre)
        (if saldo_padre padre < 1 then
           set_saldo (saldo_padre padre)
             (extend_errores [NoHayMonedas] (set_valido False (set_nivel niv nodo)))
         else set_valido True (set_saldo (saldo_padre padre - 1) (set_nivel niv nodo))),
      eg)"
  using assms by (subst decorar_arbol.simps) (simp add: Let_def sel_set)

lemma decorar_A_bloque:
  assumes "niv \<le> 3" "simbolo nodo = cp ''A''" "length (hijos nodo) = 3"
  shows "decorar_arbol padre nodo niv eg =
     (case decorar_arbol (Some (saldo nodo, refrescos_comprados nodo)) (hijos nodo ! 1)
             (niv + 1) eg of
        (nodo_c, eg1) \<Rightarrow>
          (extend_errores (errores nodo_c)
             (set_refrescos (refrescos_padre padre)
                (set_valido (valido nodo_c)
                   (set_saldo (saldo_padre padre)
                      (set_hijos ((hijos nodo)[1 := nodo_c]) (set_nivel niv nodo))))),
           eg1))"
  using assms by (subst decorar_arbol.simps) (simp add: Let_def sel_set)

lemma decorar_A_otro:
  assumes "niv \<le> 3" "simbolo nodo = cp ''A''"
    "length (hijos nodo) = 1 \<longrightarrow> simbolo (hijos nodo ! 0) \<notin> {cp ''$'', cp ''R'', cp ''<''}"
    "length (hijos nodo) \<noteq> 3"
  shows "decorar_arbol padre nodo niv eg = (set_nivel niv nodo, eg)"
  using assms by (subst decorar_arbol.simps) (auto simp add: Let_def sel_set)

lemma decorar_otro:
  assumes "niv \<le> 3" "simbolo nodo \<notin> {cp ''P'', cp ''C'', cp ''A''}"
  shows "decorar_arbol padre nodo niv eg = (set_nivel niv nodo, eg)"
  using assms by (subst decorar_arbol.simps) (auto simp add: Let_def sel_set)

section \<open>The analysis\<close>

text \<open>
  \<^verbatim>\<open>analizar_cadena\<close>.  The first argument is \<^verbatim>\<open>self.errores_globales\<close> as the call finds
  it; the result is the returned pair (the tree, \<open>None\<close> for Python's \<^verbatim>\<open>None\<close>, and
  \<^verbatim>\<open>es_valida\<close>) together with \<^verbatim>\<open>self.errores_globales\<close> as the call leaves it, which is
  what the callers read as the list of global errors.
\<close>

definition analizar_cadena ::
  "mensaje list \<Rightarrow> cadena \<Rightarrow> Nodo option \<times> bool \<times> mensaje list" where
  "analizar_cadena errores_globales cadena =
     (let eg0 = [] in
      case validar_sintaxis eg0 cadena of
        (ok, eg1) \<Rightarrow>
          if \<not> ok then (None, False, eg1)
          else
            (let raiz = construir_arbol cadena in
             case decorar_arbol None raiz 1 eg1 of
               (raiz', eg2) \<Rightarrow>
                 (let es_valida = (valido raiz' \<and> length eg2 = 0)
                  in (Some raiz', es_valida, eg2))))"

text \<open>The verdict of the syntax validator on a string.\<close>

definition acepta :: "cadena \<Rightarrow> bool" where
  "acepta cadena = fst (validar_sintaxis [] cadena)"

section \<open>Properties of the validator\<close>

lemma validar_sintaxis_eg:
  "validar_sintaxis eg cadena = (acepta cadena, eg @ snd (validar_sintaxis [] cadena))"
  by (simp add: validar_sintaxis_def acepta_def Let_def split: option.splits)

lemma validar_sintaxis_rechazo:
  "\<not> acepta cadena \<Longrightarrow> \<exists>m. snd (validar_sintaxis [] cadena) = [m]"
  by (auto simp add: validar_sintaxis_def acepta_def Let_def split: option.splits if_splits)

lemma validar_sintaxis_acepta:
  "acepta cadena \<Longrightarrow> validar_sintaxis [] cadena = (True, [])"
  by (auto simp add: validar_sintaxis_def acepta_def Let_def split: option.splits if_splits)

section \<open>Reasoning about the decoration\<close>

text \<open>An induction rule that follows the recursion of \<open>decorar_arbol\<close>.\<close>

lemma decorar_arbol_casos [case_names limite P P_corto C_epsilon C_cadena C_otro A_hoja A_bloque A_otro otro]:
  fixes Q :: "(int \<times> int) option \<Rightarrow> Nodo \<Rightarrow> int \<Rightarrow> mensaje list \<Rightarrow> bool"
  assumes limite: "\<And>padre nodo niv eg. niv > 3 \<Longrightarrow> Q padre nodo niv eg"
    and P: "\<And>padre nodo niv eg. niv \<le> 3 \<Longrightarrow> simbolo nodo = cp ''P'' \<Longrightarrow> 2 \<le> length (hijos nodo) \<Longrightarrow>
        Q (Some (saldo nodo, refrescos_comprados nodo)) (hijos nodo ! 1) niv eg \<Longrightarrow>
        Q padre nodo niv eg"
    and P_corto: "\<And>padre nodo niv eg. niv \<le> 3 \<Longrightarrow> simbolo nodo = cp ''P'' \<Longrightarrow>
        length (hijos nodo) < 2 \<Longrightarrow> Q padre nodo niv eg"
    and C_epsilon: "\<And>padre nodo niv eg. niv \<le> 3 \<Longrightarrow> simbolo nodo = cp ''C'' \<Longrightarrow>
        length (hijos nodo) = 1 \<Longrightarrow> simbolo (hijos nodo ! 0) = EPSILON \<Longrightarrow> Q padre nodo niv eg"
    and C_cadena: "\<And>padre nodo niv eg. niv \<le> 3 \<Longrightarrow> simbolo nodo = cp ''C'' \<Longrightarrow>
        length (hijos nodo) = 2 \<Longrightarrow>
        Q (Some (saldo nodo, refrescos_comprados nodo)) (hijos nodo ! 0) niv eg \<Longrightarrow>
        (\<And>nodo_a eg1.
           decorar_arbol (Some (saldo nodo, refrescos_comprados nodo)) (hijos nodo ! 0) niv eg
             = (nodo_a, eg1) \<Longrightarrow>
           Q (Some (saldo nodo_a, refrescos_comprados nodo_a))
             (set_refrescos (refrescos_comprados nodo_a)
                (set_saldo (saldo nodo_a) (hijos nodo ! 1))) niv eg1) \<Longrightarrow>
        Q padre nodo niv eg"
    and C_otro: "\<And>padre nodo niv eg. niv \<le> 3 \<Longrightarrow> simbolo nodo = cp ''C'' \<Longrightarrow>
        \<not> (length (hijos nodo) = 1 \<and> simbolo (hijos nodo ! 0) = EPSILON) \<Longrightarrow>
        length (hijos nodo) \<noteq> 2 \<Longrightarrow> Q padre nodo niv eg"
    and A_hoja: "\<And>padre nodo niv eg. niv \<le> 3 \<Longrightarrow> simbolo nodo = cp ''A'' \<Longrightarrow>
        length (hijos nodo) = 1 \<Longrightarrow>
        simbolo (hijos nodo ! 0) \<in> {cp ''$'', cp ''R'', cp ''<''} \<Longrightarrow> Q padre nodo niv eg"
    and A_bloque: "\<And>padre nodo niv eg. niv \<le> 3 \<Longrightarrow> simbolo nodo = cp ''A'' \<Longrightarrow>
        length (hijos nodo) = 3 \<Longrightarrow>
        Q (Some (saldo nodo, refrescos_comprados nodo)) (hijos nodo ! 1) (niv + 1) eg \<Longrightarrow>
        Q padre nodo niv eg"
    and A_otro: "\<And>padre nodo niv eg. niv \<le> 3 \<Longrightarrow> simbolo nodo = cp ''A'' \<Longrightarrow>
        length (hijos nodo) = 1 \<longrightarrow>
          simbolo (hijos nodo ! 0) \<notin> {cp ''$'', cp ''R'', cp ''<''} \<Longrightarrow>
        length (hijos nodo) \<noteq> 3 \<Longrightarrow> Q padre nodo niv eg"
    and otro: "\<And>padre nodo niv eg. niv \<le> 3 \<Longrightarrow>
        simbolo nodo \<notin> {cp ''P'', cp ''C'', cp ''A''} \<Longrightarrow> Q padre nodo niv eg"
  shows "Q padre nodo niv eg"
proof (induction nodo arbitrary: padre niv eg rule: measure_induct_rule [of size])
  case (less nodo padre niv eg)
  show ?case
  proof (cases "niv > 3")
    case True
    then show ?thesis by (rule limite)
  next
    case False
    then have niv: "niv \<le> 3" by simp
    consider (sP) "simbolo nodo = cp ''P''" | (sC) "simbolo nodo = cp ''C''"
      | (sA) "simbolo nodo = cp ''A''" | (so) "simbolo nodo \<notin> {cp ''P'', cp ''C'', cp ''A''}"
      by blast
    then show ?thesis
    proof cases
      case sP
      show ?thesis
      proof (cases "2 \<le> length (hijos nodo)")
        case True
        then have "size (hijos nodo ! 1) < size nodo"
          by (simp add: size_hijos_nth)
        then show ?thesis
          using niv sP True less by (rule_tac P) auto
      next
        case False
        then show ?thesis
          using niv sP by (rule_tac P_corto) auto
      qed
    next
      case sC
      show ?thesis
      proof (cases "length (hijos nodo) = 2")
        case True
        then have s0: "size (hijos nodo ! 0) < size nodo" and s1: "size (hijos nodo ! 1) < size nodo"
          by (simp_all add: size_hijos_nth)
        have ih0: "Q (Some (saldo nodo, refrescos_comprados nodo)) (hijos nodo ! 0) niv eg"
          using s0 by (rule less)
        have ih1: "Q (Some (saldo nodo_a, refrescos_comprados nodo_a))
             (set_refrescos (refrescos_comprados nodo_a)
                (set_saldo (saldo nodo_a) (hijos nodo ! 1))) niv eg1" for nodo_a eg1
          by (rule less) (use s1 in \<open>simp add: size_setters\<close>)
        show ?thesis
          using niv sC True ih0 ih1 by (rule C_cadena)
      next
        case False
        show ?thesis
        proof (cases "length (hijos nodo) = 1 \<and> simbolo (hijos nodo ! 0) = EPSILON")
          case True
          then show ?thesis
            using niv sC by (rule_tac C_epsilon) auto
        next
          case no_eps: False
          then show ?thesis
            using niv sC False by (rule_tac C_otro) auto
        qed
      qed
    next
      case sA
      show ?thesis
      proof (cases "length (hijos nodo) = 3")
        case True
        then have "size (hijos nodo ! 1) < size nodo"
          by (simp add: size_hijos_nth)
        then show ?thesis
          using niv sA True less by (rule_tac A_bloque) auto
      next
        case False
        show ?thesis
        proof (cases "length (hijos nodo) = 1 \<and>
            simbolo (hijos nodo ! 0) \<in> {cp ''$'', cp ''R'', cp ''<''}")
          case True
          then show ?thesis
            using niv sA by (rule_tac A_hoja) auto
        next
          case no_hoja: False
          then show ?thesis
            using niv sA False by (rule_tac A_otro) auto
        qed
      qed
    next
      case so
      then show ?thesis
        using niv by (rule_tac otro) auto
    qed
  qed
qed

lemma decorar_padre_irrelevante:
  assumes "simbolo nodo \<noteq> cp ''A''"
  shows "decorar_arbol p nodo niv eg = decorar_arbol q nodo niv eg"
proof (cases "niv > 3")
  case True
  then show ?thesis by (simp add: decorar_limite)
next
  case False
  then have niv: "niv \<le> 3" by simp
  consider (sP) "simbolo nodo = cp ''P''" | (sC) "simbolo nodo = cp ''C''"
    | (so) "simbolo nodo \<notin> {cp ''P'', cp ''C'', cp ''A''}"
    using assms by blast
  then show ?thesis
  proof cases
    case sP
    then show ?thesis
      using niv by (cases "2 \<le> length (hijos nodo)") (simp_all add: decorar_P decorar_P_corto)
  next
    case sC
    show ?thesis
    proof (cases "length (hijos nodo) = 2")
      case True
      then show ?thesis using niv sC by (simp add: decorar_C_cadena)
    next
      case False
      then show ?thesis
        using niv sC
        by (cases "length (hijos nodo) = 1 \<and> simbolo (hijos nodo ! 0) = EPSILON")
          (simp_all add: decorar_C_epsilon decorar_C_otro)
    qed
  next
    case so
    then show ?thesis using niv by (simp add: decorar_otro)
  qed
qed

fun todos :: "(Nodo \<Rightarrow> bool) \<Rightarrow> Nodo \<Rightarrow> bool" where
  "todos Q (Nodo s t h sa v ni r e) =
     (Q (Nodo s t h sa v ni r e) \<and> (\<forall>x \<in> set h. todos Q x))"

lemma todos_iff: "todos Q n \<longleftrightarrow> Q n \<and> (\<forall>x \<in> set (hijos n). todos Q x)"
  by (cases n) simp

text \<open>An \<open>A\<close> node with the single child \<open>R\<close>, as \<open>bucle\<close> builds it.\<close>

definition nodo_R :: Nodo where
  "nodo_R = set_hijos [nuevo_nodo (cp ''R'') (cp ''terminal'')]
     (nuevo_nodo (cp ''A'') (cp ''no_terminal''))"

section \<open>Reasoning about the construction\<close>

text \<open>
  What one iteration of the loop gives its \<open>A\<close> node, and the index at which the next
  iteration starts.
\<close>

definition siguiente :: "cadena \<Rightarrow> nat \<Rightarrow> nat" where
  "siguiente c i =
     (if c ! i \<in> set (cp ''$R<'') then i + 1
      else if c ! i = ch CHR ''{'' then buscar_cierre c (i + 1) 1
      else i + 1)"

definition hijos_de_A :: "cadena \<Rightarrow> nat \<Rightarrow> Nodo list" where
  "hijos_de_A c i =
     (if c ! i \<in> set (cp ''$R<'') then [nuevo_nodo [c ! i] (cp ''terminal'')]
      else if c ! i = ch CHR ''{'' then
        [nuevo_nodo (cp ''{'') (cp ''terminal''),
         set_hijos (procesar_contenido (recorte (rebanada c i (buscar_cierre c (i + 1) 1))))
           (nuevo_nodo (cp ''C'') (cp ''no_terminal'')),
         nuevo_nodo (cp ''}'') (cp ''terminal'')]
      else [])"

lemma bucle_fin: "\<not> i < length c \<Longrightarrow> bucle c i = []"
  by (subst bucle.simps) simp

lemma bucle_espacio: "i < length c \<Longrightarrow> c ! i = ch CHR '' '' \<Longrightarrow> bucle c i = bucle c (i + 1)"
  by (subst bucle.simps) simp

lemma bucle_token:
  "i < length c \<Longrightarrow> c ! i \<noteq> ch CHR '' '' \<Longrightarrow>
   bucle c i =
     [set_hijos (hijos_de_A c i) (nuevo_nodo (cp ''A'') (cp ''no_terminal'')),
      set_hijos
        (if strip (drop (siguiente c i) c) = [] then [nuevo_nodo EPSILON (cp ''terminal'')]
         else bucle c (siguiente c i))
        (nuevo_nodo (cp ''C'') (cp ''no_terminal''))]"
  by (subst bucle.simps) (simp add: Let_def siguiente_def hijos_de_A_def)

lemma procesar_bucle_induct [case_names procesar fin espacio token]:
  assumes procesar: "\<And>c. (c \<noteq> [] \<Longrightarrow> Q c 0) \<Longrightarrow> P c"
    and fin: "\<And>c i. \<not> i < length c \<Longrightarrow> Q c i"
    and espacio: "\<And>c i. i < length c \<Longrightarrow> c ! i = ch CHR '' '' \<Longrightarrow> Q c (i + 1) \<Longrightarrow> Q c i"
    and token: "\<And>c i. i < length c \<Longrightarrow> c ! i \<noteq> ch CHR '' '' \<Longrightarrow>
        (c ! i = ch CHR ''{'' \<Longrightarrow> P (recorte (rebanada c i (buscar_cierre c (i + 1) 1)))) \<Longrightarrow>
        (strip (drop (siguiente c i) c) \<noteq> [] \<Longrightarrow> Q c (siguiente c i)) \<Longrightarrow> Q c i"
  shows "P c0" and "Q c1 i1"
proof (induction c0 and c1 i1 rule: procesar_contenido_bucle.induct)
  case (1 contenido)
  then show ?case by (rule procesar)
next
  case (2 contenido i)
  show ?case
  proof (cases "i < length contenido")
    case False
    then show ?thesis by (rule fin)
  next
    case True
    show ?thesis
    proof (cases "contenido ! i = ch CHR '' ''")
      case esp: True
      have "Q contenido (i + 1)"
        using 2(1) [OF True refl esp] .
      with True esp show ?thesis by (rule espacio)
    next
      case tok: False
      have a: "P (recorte (rebanada contenido i (buscar_cierre contenido (i + 1) 1)))"
        if "contenido ! i = ch CHR ''{''"
        using 2(2) [OF True refl tok refl _ that] that by simp
      have b: "Q contenido (siguiente contenido i)"
        if "strip (drop (siguiente contenido i) contenido) \<noteq> []"
        using 2(3) [OF True refl tok refl refl refl refl] that
        unfolding siguiente_def by simp
      from True tok a b show ?thesis by (rule token)
    qed
  qed
qed

text \<open>
  The state in which \<^verbatim>\<open>Nodo.__init__\<close> leaves the attributes, and the shapes of the
  children lists that the construction produces.
\<close>

definition fresco :: "Nodo \<Rightarrow> bool" where
  "fresco n \<longleftrightarrow>
     saldo n = 0 \<and> valido n \<and> nivel n = 0 \<and> refrescos_comprados n = 0 \<and> errores n = []"

definition forma_hijos_C :: "Nodo list \<Rightarrow> bool" where
  "forma_hijos_C h \<longleftrightarrow>
     h = [] \<or>
     (length h = 1 \<and> simbolo (h ! 0) = EPSILON) \<or>
     (length h = 2 \<and> simbolo (h ! 0) = cp ''A'' \<and> simbolo (h ! 1) = cp ''C'')"

definition forma_hijos_A :: "Nodo list \<Rightarrow> bool" where
  "forma_hijos_A h \<longleftrightarrow>
     h = [] \<or>
     (length h = 1 \<and> simbolo (h ! 0) \<in> {cp ''$'', cp ''R'', cp ''<''}) \<or>
     (length h = 3 \<and> simbolo (h ! 0) = cp ''{'' \<and> simbolo (h ! 1) = cp ''C'' \<and>
      simbolo (h ! 2) = cp ''}'')"

definition forma_local :: "Nodo \<Rightarrow> bool" where
  "forma_local n \<longleftrightarrow>
     (if simbolo n = cp ''P'' then
        length (hijos n) = 3 \<and> simbolo (hijos n ! 0) = cp ''{'' \<and>
        simbolo (hijos n ! 1) = cp ''C'' \<and> simbolo (hijos n ! 2) = cp ''}''
      else if simbolo n = cp ''C'' then forma_hijos_C (hijos n)
      else if simbolo n = cp ''A'' then forma_hijos_A (hijos n)
      else hijos n = [])"

definition construido :: "Nodo \<Rightarrow> bool" where
  "construido n \<longleftrightarrow> fresco n \<and> forma_local n"

lemma todos_set_hijos:
  "todos Q (set_hijos h n) \<longleftrightarrow> Q (set_hijos h n) \<and> (\<forall>x \<in> set h. todos Q x)"
  by (simp add: todos_iff [of Q "set_hijos h n"] sel_set)

lemma todos_nuevo_nodo: "todos Q (nuevo_nodo s t) \<longleftrightarrow> Q (nuevo_nodo s t)"
  by (simp add: nuevo_nodo_def)

lemma construido_hoja:
  "s \<notin> {cp ''P'', cp ''C'', cp ''A''} \<Longrightarrow> construido (nuevo_nodo s t)"
  by (auto simp add: construido_def fresco_def forma_local_def nuevo_nodo_def)

lemma construido_C:
  "s = cp ''C'' \<Longrightarrow> forma_hijos_C h \<Longrightarrow> construido (set_hijos h (nuevo_nodo s t))"
  by (simp add: construido_def fresco_def forma_local_def nuevo_nodo_def set_hijos_def)

lemma construido_A:
  "s = cp ''A'' \<Longrightarrow> forma_hijos_A h \<Longrightarrow> construido (set_hijos h (nuevo_nodo s t))"
  by (simp add: construido_def fresco_def forma_local_def nuevo_nodo_def set_hijos_def)

lemma forma_hijos_C_epsilon: "forma_hijos_C [nuevo_nodo EPSILON t]"
  by (simp add: forma_hijos_C_def nuevo_nodo_def)

lemma forma_hijos_C_par:
  "s = cp ''A'' \<Longrightarrow> s' = cp ''C'' \<Longrightarrow>
   forma_hijos_C [set_hijos h (nuevo_nodo s t), set_hijos h' (nuevo_nodo s' t')]"
  by (simp add: forma_hijos_C_def nuevo_nodo_def set_hijos_def)

lemma forma_hijos_de_A: "forma_hijos_A (hijos_de_A c i)"
  by (auto simp add: forma_hijos_A_def hijos_de_A_def nuevo_nodo_def set_hijos_def)

lemma procesar_construido:
  "forma_hijos_C (procesar_contenido c0) \<and> (\<forall>x \<in> set (procesar_contenido c0). todos construido x)"
  and bucle_construido:
  "forma_hijos_C (bucle c1 i1) \<and> (\<forall>x \<in> set (bucle c1 i1). todos construido x)"
proof (induction c0 and c1 i1 rule: procesar_bucle_induct)
  case (procesar c)
  show ?case
  proof (cases "c = []")
    case True
    then show ?thesis
      by (subst (1 2) procesar_contenido.simps)
        (simp add: forma_hijos_C_epsilon todos_nuevo_nodo construido_hoja)
  next
    case False
    with procesar show ?thesis
      by (subst (1 2) procesar_contenido.simps) simp
  qed
next
  case (fin c i)
  then show ?case
    by (simp add: bucle_fin forma_hijos_C_def)
next
  case (espacio c i)
  then show ?case
    by (simp add: bucle_espacio)
next
  case (token c i)
  let ?resto = "if strip (drop (siguiente c i) c) = [] then [nuevo_nodo EPSILON (cp ''terminal'')]
         else bucle c (siguiente c i)"
  have resto: "forma_hijos_C ?resto \<and> (\<forall>x \<in> set ?resto. todos construido x)"
    using token(4) by (simp add: forma_hijos_C_epsilon todos_nuevo_nodo construido_hoja)
  have ha: "\<forall>x \<in> set (hijos_de_A c i). todos construido x"
  proof (cases "c ! i = ch CHR ''{''")
    case True
    let ?interno = "procesar_contenido (recorte (rebanada c i (buscar_cierre c (i + 1) 1)))"
    from token(3) [OF True]
    have "forma_hijos_C ?interno" and "\<forall>x \<in> set ?interno. todos construido x"
      by simp_all
    then show ?thesis
      using True
      by (simp add: hijos_de_A_def todos_nuevo_nodo construido_hoja todos_set_hijos construido_C)
  next
    case False
    then show ?thesis
      by (auto simp add: hijos_de_A_def todos_nuevo_nodo construido_hoja)
  qed
  show ?case
    using resto ha
    by (simp add: bucle_token [OF token(1,2)] forma_hijos_C_par todos_set_hijos
        construido_C construido_A forma_hijos_de_A del: One_nat_def)
qed

lemma construido_P:
  "s = cp ''P'' \<Longrightarrow> simbolo a = cp ''{'' \<Longrightarrow> simbolo b = cp ''C'' \<Longrightarrow> simbolo c = cp ''}'' \<Longrightarrow>
   construido (set_hijos [a, b, c] (nuevo_nodo s t))"
  by (simp add: construido_def fresco_def forma_local_def nuevo_nodo_def set_hijos_def)

lemma simbolo_nuevo_nodo: "simbolo (nuevo_nodo s t) = s"
  by (simp add: nuevo_nodo_def)

lemma construir_arbol_construido: "todos construido (construir_arbol cadena)"
  using procesar_construido [of "strip (recorte cadena)"]
  by (simp add: construir_arbol_def Let_def todos_set_hijos todos_nuevo_nodo construido_hoja
      construido_C construido_P sel_set simbolo_nuevo_nodo)

section \<open>Invariants of the decoration\<close>

lemma todos_setters:
  "todos Q (set_saldo a n) \<longleftrightarrow> Q (set_saldo a n) \<and> (\<forall>x \<in> set (hijos n). todos Q x)"
  "todos Q (set_valido b n) \<longleftrightarrow> Q (set_valido b n) \<and> (\<forall>x \<in> set (hijos n). todos Q x)"
  "todos Q (set_nivel c n) \<longleftrightarrow> Q (set_nivel c n) \<and> (\<forall>x \<in> set (hijos n). todos Q x)"
  "todos Q (set_refrescos d n) \<longleftrightarrow> Q (set_refrescos d n) \<and> (\<forall>x \<in> set (hijos n). todos Q x)"
  "todos Q (extend_errores es n) \<longleftrightarrow>
     Q (extend_errores es n) \<and> (\<forall>x \<in> set (hijos n). todos Q x)"
  by (simp_all add: todos_iff [of Q "set_saldo a n"] todos_iff [of Q "set_valido b n"]
      todos_iff [of Q "set_nivel c n"] todos_iff [of Q "set_refrescos d n"]
      todos_iff [of Q "extend_errores es n"] sel_set)

lemma todos_aqui: "todos Q n \<Longrightarrow> Q n"
  by (simp add: todos_iff [of Q n])

lemma todos_hijos: "todos Q n \<Longrightarrow> x \<in> set (hijos n) \<Longrightarrow> todos Q x"
  by (simp add: todos_iff [of Q n])

lemma todos_nth: "todos Q n \<Longrightarrow> i < length (hijos n) \<Longrightarrow> todos Q (hijos n ! i)"
  by (simp add: todos_hijos)

lemma todos_list_update:
  "\<forall>x \<in> set h. todos Q x \<Longrightarrow> todos Q y \<Longrightarrow> \<forall>x \<in> set (h[i := y]). todos Q x"
  using set_update_subset_insert [of h i y] by auto

lemma todos_mono: "(\<And>x. Q x \<Longrightarrow> R x) \<Longrightarrow> todos Q n \<Longrightarrow> todos R n"
proof (induction n rule: measure_induct_rule [of size])
  case (less n)
  have "todos R x" if "x \<in> set (hijos n)" for x
  proof -
    from that obtain i where "i < length (hijos n)" "x = hijos n ! i"
      by (auto simp add: in_set_conv_nth)
    then have "size x < size n"
      by (simp add: size_hijos_nth)
    moreover have "todos Q x"
      using less.prems(2) that by (rule todos_hijos)
    ultimately show ?thesis
      using less.IH less.prems(1) by blast
  qed
  moreover have "R n"
    using less.prems by (simp add: todos_aqui)
  ultimately show ?case
    by (simp add: todos_iff [of R n])
qed

definition en_rango :: "Nodo \<Rightarrow> bool" where
  "en_rango n \<longleftrightarrow> 0 \<le> saldo n \<and> 0 \<le> refrescos_comprados n \<and> refrescos_comprados n \<le> 3"

definition padre_en_rango :: "(int \<times> int) option \<Rightarrow> bool" where
  "padre_en_rango p \<longleftrightarrow> 0 \<le> saldo_padre p \<and> 0 \<le> refrescos_padre p \<and> refrescos_padre p \<le> 3"

lemma padre_en_rango_Some:
  "en_rango n \<Longrightarrow> padre_en_rango (Some (saldo n, refrescos_comprados n))"
  by (simp add: en_rango_def padre_en_rango_def saldo_padre_def refrescos_padre_def)

lemma todos_I: "Q n \<Longrightarrow> \<forall>x \<in> set (hijos n). todos Q x \<Longrightarrow> todos Q n"
  by (simp add: todos_iff [of Q n])

lemma en_rango_D:
  "en_rango n \<Longrightarrow> 0 \<le> saldo n \<and> 0 \<le> refrescos_comprados n \<and> refrescos_comprados n \<le> 3"
  by (simp add: en_rango_def)

lemma padre_en_rango_D:
  "padre_en_rango p \<Longrightarrow> 0 \<le> saldo_padre p \<and> 0 \<le> refrescos_padre p \<and> refrescos_padre p \<le> 3"
  by (simp add: padre_en_rango_def)

lemma decorar_en_rango:
  "todos en_rango nodo \<Longrightarrow> padre_en_rango padre \<Longrightarrow>
   todos en_rango (fst (decorar_arbol padre nodo niv eg))"
proof (induction padre nodo niv eg rule: decorar_arbol_casos)
  case (limite padre nodo niv eg)
  show ?case
  proof (rule todos_I)
    show "en_rango (fst (decorar_arbol padre nodo niv eg))"
      using limite.hyps en_rango_D [OF todos_aqui [OF limite.prems(1)]]
      by (simp add: decorar_limite sel_set en_rango_def)
    show "\<forall>x \<in> set (hijos (fst (decorar_arbol padre nodo niv eg))). todos en_rango x"
      using limite.hyps limite.prems(1) by (simp add: decorar_limite sel_set todos_hijos)
  qed
next
  case (P padre nodo niv eg)
  obtain nodo_c eg1 where d:
    "decorar_arbol (Some (saldo nodo, refrescos_comprados nodo)) (hijos nodo ! 1) niv eg
       = (nodo_c, eg1)"
    by (cases "decorar_arbol (Some (saldo nodo, refrescos_comprados nodo)) (hijos nodo ! 1) niv eg")
  have "todos en_rango (hijos nodo ! 1)"
    using P.prems(1) P.hyps(3) by (simp add: todos_nth)
  moreover have "padre_en_rango (Some (saldo nodo, refrescos_comprados nodo))"
    using P.prems(1) by (simp add: todos_aqui padre_en_rango_Some)
  ultimately have c: "todos en_rango nodo_c"
    using P.IH d by simp
  show ?case
  proof (rule todos_I)
    show "en_rango (fst (decorar_arbol padre nodo niv eg))"
      using P.hyps d en_rango_D [OF todos_aqui [OF c]]
      by (simp add: decorar_P sel_set en_rango_def)
    have "\<forall>x \<in> set ((hijos nodo)[1 := nodo_c]). todos en_rango x"
      using P.prems(1) c by (intro todos_list_update) (simp_all add: todos_hijos)
    then show "\<forall>x \<in> set (hijos (fst (decorar_arbol padre nodo niv eg))). todos en_rango x"
      using P.hyps d by (simp add: decorar_P sel_set del: One_nat_def)
  qed
next
  case (P_corto padre nodo niv eg)
  show ?case
  proof (rule todos_I)
    show "en_rango (fst (decorar_arbol padre nodo niv eg))"
      using P_corto.hyps en_rango_D [OF todos_aqui [OF P_corto.prems(1)]]
      by (simp add: decorar_P_corto sel_set en_rango_def)
    show "\<forall>x \<in> set (hijos (fst (decorar_arbol padre nodo niv eg))). todos en_rango x"
      using P_corto.hyps P_corto.prems(1) by (simp add: decorar_P_corto sel_set todos_hijos)
  qed
next
  case (C_epsilon padre nodo niv eg)
  show ?case
  proof (rule todos_I)
    show "en_rango (fst (decorar_arbol padre nodo niv eg))"
      using C_epsilon.hyps by (simp add: decorar_C_epsilon sel_set en_rango_def)
    show "\<forall>x \<in> set (hijos (fst (decorar_arbol padre nodo niv eg))). todos en_rango x"
      using C_epsilon.hyps C_epsilon.prems(1)
      by (simp add: decorar_C_epsilon sel_set todos_hijos)
  qed
next
  case (C_cadena padre nodo niv eg)
  obtain nodo_a eg1 where da:
    "decorar_arbol (Some (saldo nodo, refrescos_comprados nodo)) (hijos nodo ! 0) niv eg
       = (nodo_a, eg1)"
    by (cases "decorar_arbol (Some (saldo nodo, refrescos_comprados nodo)) (hijos nodo ! 0) niv eg")
  let ?sembrado = "set_refrescos (refrescos_comprados nodo_a)
      (set_saldo (saldo nodo_a) (hijos nodo ! 1))"
  obtain nodo_c eg2 where dc:
    "decorar_arbol (Some (saldo nodo_a, refrescos_comprados nodo_a)) ?sembrado niv eg1
       = (nodo_c, eg2)"
    by (cases "decorar_arbol (Some (saldo nodo_a, refrescos_comprados nodo_a)) ?sembrado niv eg1")
  have "todos en_rango (hijos nodo ! 0)"
    using C_cadena.prems(1) C_cadena.hyps(3) by (simp add: todos_nth)
  moreover have "padre_en_rango (Some (saldo nodo, refrescos_comprados nodo))"
    using C_cadena.prems(1) by (simp add: todos_aqui padre_en_rango_Some)
  ultimately have a: "todos en_rango nodo_a"
    using C_cadena.IH(1) da by simp
  then have ea: "en_rango nodo_a"
    by (rule todos_aqui)
  have h1: "todos en_rango (hijos nodo ! 1)"
    using C_cadena.prems(1) C_cadena.hyps(3) by (simp add: todos_nth)
  have "todos en_rango ?sembrado"
  proof (rule todos_I)
    show "en_rango ?sembrado"
      using en_rango_D [OF ea] by (simp add: sel_set en_rango_def)
    show "\<forall>x \<in> set (hijos ?sembrado). todos en_rango x"
      using h1 by (simp add: sel_set todos_hijos)
  qed
  moreover have "padre_en_rango (Some (saldo nodo_a, refrescos_comprados nodo_a))"
    using ea by (rule padre_en_rango_Some)
  ultimately have c: "todos en_rango nodo_c"
    using C_cadena.IH(2) [OF da] dc by simp
  show ?case
  proof (rule todos_I)
    show "en_rango (fst (decorar_arbol padre nodo niv eg))"
      using C_cadena.hyps da dc en_rango_D [OF todos_aqui [OF c]]
      by (simp add: decorar_C_cadena sel_set en_rango_def)
    show "\<forall>x \<in> set (hijos (fst (decorar_arbol padre nodo niv eg))). todos en_rango x"
      using C_cadena.hyps da dc a c by (simp add: decorar_C_cadena sel_set)
  qed
next
  case (C_otro padre nodo niv eg)
  show ?case
  proof (rule todos_I)
    show "en_rango (fst (decorar_arbol padre nodo niv eg))"
      using C_otro.hyps en_rango_D [OF todos_aqui [OF C_otro.prems(1)]]
      by (simp add: decorar_C_otro sel_set en_rango_def)
    show "\<forall>x \<in> set (hijos (fst (decorar_arbol padre nodo niv eg))). todos en_rango x"
      using C_otro.hyps C_otro.prems(1) by (simp add: decorar_C_otro sel_set todos_hijos)
  qed
next
  case (A_hoja padre nodo niv eg)
  note p = padre_en_rango_D [OF A_hoja.prems(2)]
  from A_hoja.hyps(4) consider "simbolo (hijos nodo ! 0) = cp ''$''"
    | "simbolo (hijos nodo ! 0) = cp ''R''" | "simbolo (hijos nodo ! 0) = cp ''<''"
    by blast
  then show ?case
  proof cases
    case 1
    show ?thesis
    proof (rule todos_I)
      show "en_rango (fst (decorar_arbol padre nodo niv eg))"
        using A_hoja.hyps 1 p by (simp add: decorar_A_moneda sel_set en_rango_def)
      show "\<forall>x \<in> set (hijos (fst (decorar_arbol padre nodo niv eg))). todos en_rango x"
        using A_hoja.hyps 1 A_hoja.prems(1) by (simp add: decorar_A_moneda sel_set todos_hijos)
    qed
  next
    case 2
    show ?thesis
    proof (rule todos_I)
      show "en_rango (fst (decorar_arbol padre nodo niv eg))"
        using A_hoja.hyps 2 p by (simp add: decorar_A_refresco sel_set en_rango_def)
      show "\<forall>x \<in> set (hijos (fst (decorar_arbol padre nodo niv eg))). todos en_rango x"
        using A_hoja.hyps 2 A_hoja.prems(1)
        by (simp add: decorar_A_refresco sel_set todos_hijos)
    qed
  next
    case 3
    show ?thesis
    proof (rule todos_I)
      show "en_rango (fst (decorar_arbol padre nodo niv eg))"
        using A_hoja.hyps 3 p by (simp add: decorar_A_devolver sel_set en_rango_def)
      show "\<forall>x \<in> set (hijos (fst (decorar_arbol padre nodo niv eg))). todos en_rango x"
        using A_hoja.hyps 3 A_hoja.prems(1)
        by (simp add: decorar_A_devolver sel_set todos_hijos)
    qed
  qed
next
  case (A_bloque padre nodo niv eg)
  note p = padre_en_rango_D [OF A_bloque.prems(2)]
  obtain nodo_c eg1 where d:
    "decorar_arbol (Some (saldo nodo, refrescos_comprados nodo)) (hijos nodo ! 1) (niv + 1) eg
       = (nodo_c, eg1)"
    by (cases "decorar_arbol (Some (saldo nodo, refrescos_comprados nodo)) (hijos nodo ! 1)
        (niv + 1) eg")
  have "todos en_rango (hijos nodo ! 1)"
    using A_bloque.prems(1) A_bloque.hyps(3) by (simp add: todos_nth)
  moreover have "padre_en_rango (Some (saldo nodo, refrescos_comprados nodo))"
    using A_bloque.prems(1) by (simp add: todos_aqui padre_en_rango_Some)
  ultimately have c: "todos en_rango nodo_c"
    using A_bloque.IH d by simp
  show ?case
  proof (rule todos_I)
    show "en_rango (fst (decorar_arbol padre nodo niv eg))"
      using A_bloque.hyps d p by (simp add: decorar_A_bloque sel_set en_rango_def)
    have "\<forall>x \<in> set ((hijos nodo)[1 := nodo_c]). todos en_rango x"
      using A_bloque.prems(1) c by (intro todos_list_update) (simp_all add: todos_hijos)
    then show "\<forall>x \<in> set (hijos (fst (decorar_arbol padre nodo niv eg))). todos en_rango x"
      using A_bloque.hyps d by (simp add: decorar_A_bloque sel_set del: One_nat_def)
  qed
next
  case (A_otro padre nodo niv eg)
  show ?case
  proof (rule todos_I)
    show "en_rango (fst (decorar_arbol padre nodo niv eg))"
      using A_otro.hyps en_rango_D [OF todos_aqui [OF A_otro.prems(1)]]
      by (simp add: decorar_A_otro sel_set en_rango_def)
    show "\<forall>x \<in> set (hijos (fst (decorar_arbol padre nodo niv eg))). todos en_rango x"
      using A_otro.hyps A_otro.prems(1) by (simp add: decorar_A_otro sel_set todos_hijos)
  qed
next
  case (otro padre nodo niv eg)
  show ?case
  proof (rule todos_I)
    show "en_rango (fst (decorar_arbol padre nodo niv eg))"
      using otro.hyps en_rango_D [OF todos_aqui [OF otro.prems(1)]]
      by (simp add: decorar_otro sel_set en_rango_def)
    show "\<forall>x \<in> set (hijos (fst (decorar_arbol padre nodo niv eg))). todos en_rango x"
      using otro.hyps otro.prems(1) by (simp add: decorar_otro sel_set todos_hijos)
  qed
qed

text \<open>
  The global list receives one entry per nesting diagnostic that reaches the node being
  decorated.
\<close>

fun es_limite :: "mensaje \<Rightarrow> bool" where
  "es_limite (ExcedeLimiteNivel k) = True"
| "es_limite _ = False"

definition globales_de :: "mensaje list \<Rightarrow> mensaje list" where
  "globales_de es = map (\<lambda>_. ExcedeLimite) (filter es_limite es)"

definition sin_errores :: "Nodo \<Rightarrow> bool" where
  "sin_errores n \<longleftrightarrow> errores n = []"

lemma globales_de_append: "globales_de (a @ b) = globales_de a @ globales_de b"
  by (simp add: globales_de_def)

lemma globales_de_simps:
  "globales_de [] = []"
  "globales_de [ExcedeLimiteNivel k] = [ExcedeLimite]"
  "globales_de [SaldoInsuficiente s] = []"
  "globales_de [ExcedeMaximoRefrescos] = []"
  "globales_de [NoHayMonedas] = []"
  by (simp_all add: globales_de_def)

lemma sin_errores_D: "todos sin_errores n \<Longrightarrow> errores n = []"
  using todos_aqui [of sin_errores n] by (simp add: sin_errores_def)

lemma todos_sin_errores_sembrado:
  "todos sin_errores n \<Longrightarrow> todos sin_errores (set_refrescos r (set_saldo s n))"
  by (rule todos_I) (simp_all add: sel_set sin_errores_def sin_errores_D todos_hijos)

lemma decorar_globales:
  "todos sin_errores nodo \<Longrightarrow>
   snd (decorar_arbol padre nodo niv eg) =
     eg @ globales_de (errores (fst (decorar_arbol padre nodo niv eg)))"
proof (induction padre nodo niv eg rule: decorar_arbol_casos)
  case (limite padre nodo niv eg)
  then show ?case
    by (simp add: decorar_limite sel_set sin_errores_D globales_de_simps)
next
  case (P padre nodo niv eg)
  have "todos sin_errores (hijos nodo ! 1)"
    using P.prems P.hyps(3) by (simp add: todos_nth)
  from P.IH [OF this] show ?case
    using P.hyps P.prems
    by (cases "decorar_arbol (Some (saldo nodo, refrescos_comprados nodo)) (hijos nodo ! 1) niv eg")
      (simp add: decorar_P sel_set sin_errores_D)
next
  case (P_corto padre nodo niv eg)
  then show ?case
    by (simp add: decorar_P_corto sel_set sin_errores_D globales_de_simps)
next
  case (C_epsilon padre nodo niv eg)
  then show ?case
    by (simp add: decorar_C_epsilon sel_set sin_errores_D globales_de_simps)
next
  case (C_cadena padre nodo niv eg)
  obtain nodo_a eg1 where da:
    "decorar_arbol (Some (saldo nodo, refrescos_comprados nodo)) (hijos nodo ! 0) niv eg
       = (nodo_a, eg1)"
    by (cases "decorar_arbol (Some (saldo nodo, refrescos_comprados nodo)) (hijos nodo ! 0) niv eg")
  let ?sembrado = "set_refrescos (refrescos_comprados nodo_a)
      (set_saldo (saldo nodo_a) (hijos nodo ! 1))"
  obtain nodo_c eg2 where dc:
    "decorar_arbol (Some (saldo nodo_a, refrescos_comprados nodo_a)) ?sembrado niv eg1
       = (nodo_c, eg2)"
    by (cases "decorar_arbol (Some (saldo nodo_a, refrescos_comprados nodo_a)) ?sembrado niv eg1")
  have "todos sin_errores (hijos nodo ! 0)"
    using C_cadena.prems C_cadena.hyps(3) by (simp add: todos_nth)
  from C_cadena.IH(1) [OF this] da have 1: "eg1 = eg @ globales_de (errores nodo_a)"
    by simp
  have "todos sin_errores (hijos nodo ! 1)"
    using C_cadena.prems C_cadena.hyps(3) by (simp add: todos_nth)
  then have "todos sin_errores ?sembrado"
    by (rule todos_sin_errores_sembrado)
  from C_cadena.IH(2) [OF da this] dc have 2: "eg2 = eg1 @ globales_de (errores nodo_c)"
    by simp
  show ?case
    using C_cadena.hyps C_cadena.prems da dc 1 2
    by (simp add: decorar_C_cadena sel_set sin_errores_D globales_de_append)
next
  case (C_otro padre nodo niv eg)
  then show ?case
    by (simp add: decorar_C_otro sel_set sin_errores_D globales_de_simps)
next
  case (A_hoja padre nodo niv eg)
  from A_hoja.hyps(4) consider "simbolo (hijos nodo ! 0) = cp ''$''"
    | "simbolo (hijos nodo ! 0) = cp ''R''" | "simbolo (hijos nodo ! 0) = cp ''<''"
    by blast
  then show ?case
  proof cases
    case 1
    with A_hoja show ?thesis
      by (simp add: decorar_A_moneda sel_set sin_errores_D globales_de_simps)
  next
    case 2
    with A_hoja show ?thesis
      by (simp add: decorar_A_refresco sel_set sin_errores_D globales_de_simps)
  next
    case 3
    with A_hoja show ?thesis
      by (simp add: decorar_A_devolver sel_set sin_errores_D globales_de_simps)
  qed
next
  case (A_bloque padre nodo niv eg)
  have "todos sin_errores (hijos nodo ! 1)"
    using A_bloque.prems A_bloque.hyps(3) by (simp add: todos_nth)
  from A_bloque.IH [OF this] show ?case
    using A_bloque.hyps A_bloque.prems
    by (cases "decorar_arbol (Some (saldo nodo, refrescos_comprados nodo)) (hijos nodo ! 1)
        (niv + 1) eg")
      (simp add: decorar_A_bloque sel_set sin_errores_D)
next
  case (A_otro padre nodo niv eg)
  then show ?case
    by (simp add: decorar_A_otro sel_set sin_errores_D globales_de_simps)
next
  case (otro padre nodo niv eg)
  then show ?case
    by (simp add: decorar_otro sel_set sin_errores_D globales_de_simps)
qed

section \<open>Nesting depth\<close>

text \<open>
  The number of nested blocks \<open>A \<rightarrow> { C }\<close> in a tree.  The content of the root block sits
  at depth 1, so a tree holds a block whose content sits at depth \<open>d + 1\<close> exactly when
  its \<open>anidacion\<close> is at least \<open>d\<close>.
\<close>

lemma longitud_2: "length xs = 2 \<Longrightarrow> \<exists>a b. xs = [a, b]"
  by (auto simp add: numeral_2_eq_2 length_Suc_conv)

lemma longitud_3: "length xs = 3 \<Longrightarrow> \<exists>a b c. xs = [a, b, c]"
  by (auto simp add: numeral_3_eq_3 length_Suc_conv)


fun anidacion :: "Nodo \<Rightarrow> nat" where
  "anidacion (Nodo s t h sa v ni r e) =
     (if s = cp ''A'' \<and> length h = 3 then 1 else 0) + foldr max (map anidacion h) 0"

lemma anidacion_eq:
  "anidacion n =
     (if simbolo n = cp ''A'' \<and> length (hijos n) = 3 then 1 else 0) +
     foldr max (map anidacion (hijos n)) 0"
  by (cases n) simp

lemma anidacion_sembrado: "anidacion (set_refrescos r (set_saldo s n)) = anidacion n"
  by (simp add: anidacion_eq [of "set_refrescos r (set_saldo s n)"] anidacion_eq [of n] sel_set)

lemma forma_local_sembrado: "forma_local (set_refrescos r (set_saldo s n)) = forma_local n"
  by (simp add: forma_local_def sel_set)

lemma todos_forma_sembrado:
  "todos forma_local n \<Longrightarrow> todos forma_local (set_refrescos r (set_saldo s n))"
  by (rule todos_I)
    (use todos_aqui [of forma_local n] todos_hijos [of forma_local n] in
      \<open>simp_all add: forma_local_sembrado sel_set\<close>)

lemma anidacion_hoja:
  assumes "todos forma_local x" "simbolo x \<notin> {cp ''P'', cp ''C'', cp ''A''}"
  shows "anidacion x = 0"
proof -
  have "forma_local x"
    using assms(1) by (rule todos_aqui)
  with assms(2) have "hijos x = []"
    by (auto simp add: forma_local_def)
  with assms(2) show ?thesis
    by (simp add: anidacion_eq [of x])
qed

lemma decorar_crece: "length eg \<le> length (snd (decorar_arbol padre nodo niv eg))"
proof (induction padre nodo niv eg rule: decorar_arbol_casos)
  case (limite padre nodo niv eg)
  then show ?case by (simp add: decorar_limite)
next
  case (P padre nodo niv eg)
  then show ?case
    by (cases "decorar_arbol (Some (saldo nodo, refrescos_comprados nodo)) (hijos nodo ! 1) niv eg")
      (simp add: decorar_P)
next
  case (P_corto padre nodo niv eg)
  then show ?case by (simp add: decorar_P_corto)
next
  case (C_epsilon padre nodo niv eg)
  then show ?case by (simp add: decorar_C_epsilon)
next
  case (C_cadena padre nodo niv eg)
  obtain nodo_a eg1 where da:
    "decorar_arbol (Some (saldo nodo, refrescos_comprados nodo)) (hijos nodo ! 0) niv eg
       = (nodo_a, eg1)"
    by (cases "decorar_arbol (Some (saldo nodo, refrescos_comprados nodo)) (hijos nodo ! 0) niv eg")
  let ?sembrado = "set_refrescos (refrescos_comprados nodo_a)
      (set_saldo (saldo nodo_a) (hijos nodo ! 1))"
  obtain nodo_c eg2 where dc:
    "decorar_arbol (Some (saldo nodo_a, refrescos_comprados nodo_a)) ?sembrado niv eg1
       = (nodo_c, eg2)"
    by (cases "decorar_arbol (Some (saldo nodo_a, refrescos_comprados nodo_a)) ?sembrado niv eg1")
  from C_cadena.IH(1) da have "length eg \<le> length eg1" by simp
  moreover from C_cadena.IH(2) [OF da] dc have "length eg1 \<le> length eg2" by simp
  ultimately show ?case
    using C_cadena.hyps da dc by (simp add: decorar_C_cadena)
next
  case (C_otro padre nodo niv eg)
  then show ?case by (simp add: decorar_C_otro)
next
  case (A_hoja padre nodo niv eg)
  from A_hoja.hyps(4) consider "simbolo (hijos nodo ! 0) = cp ''$''"
    | "simbolo (hijos nodo ! 0) = cp ''R''" | "simbolo (hijos nodo ! 0) = cp ''<''"
    by blast
  then show ?case
    using A_hoja.hyps
    by cases (simp_all add: decorar_A_moneda decorar_A_refresco decorar_A_devolver)
next
  case (A_bloque padre nodo niv eg)
  then show ?case
    by (cases "decorar_arbol (Some (saldo nodo, refrescos_comprados nodo)) (hijos nodo ! 1)
        (niv + 1) eg")
      (simp add: decorar_A_bloque)
next
  case (A_otro padre nodo niv eg)
  then show ?case by (simp add: decorar_A_otro)
next
  case (otro padre nodo niv eg)
  then show ?case by (simp add: decorar_otro)
qed

lemma decorar_profundo:
  "todos forma_local nodo \<Longrightarrow> simbolo nodo \<in> {cp ''P'', cp ''C'', cp ''A''} \<Longrightarrow>
   3 < niv + int (anidacion nodo) \<Longrightarrow>
   \<not> valido (fst (decorar_arbol padre nodo niv eg)) \<and>
   length eg < length (snd (decorar_arbol padre nodo niv eg))"
proof (induction padre nodo niv eg rule: decorar_arbol_casos)
  case (limite padre nodo niv eg)
  then show ?case by (simp add: decorar_limite sel_set)
next
  case (P padre nodo niv eg)
  have f: "forma_local nodo"
    using P.prems(1) by (rule todos_aqui)
  with P.hyps(2) have l: "length (hijos nodo) = 3" and s0: "simbolo (hijos nodo ! 0) = cp ''{''"
    and s1: "simbolo (hijos nodo ! 1) = cp ''C''" and s2: "simbolo (hijos nodo ! 2) = cp ''}''"
    by (simp_all add: forma_local_def)
  from l obtain a b c where h: "hijos nodo = [a, b, c]"
    using longitud_3 by blast
  have ta: "todos forma_local a" and tb: "todos forma_local b" and tc: "todos forma_local c"
    using todos_hijos [OF P.prems(1)] h by simp_all
  have "anidacion a = 0" "anidacion c = 0"
    using ta tc s0 s2 h by (simp_all add: anidacion_hoja)
  then have "anidacion nodo = anidacion b"
    using h P.hyps(2) by (simp add: anidacion_eq [of nodo])
  with P.prems(3) have "3 < niv + int (anidacion (hijos nodo ! 1))"
    using h by simp
  moreover have "todos forma_local (hijos nodo ! 1)"
    using tb h by simp
  ultimately have
    "\<not> valido (fst (decorar_arbol (Some (saldo nodo, refrescos_comprados nodo))
        (hijos nodo ! 1) niv eg)) \<and>
     length eg < length (snd (decorar_arbol (Some (saldo nodo, refrescos_comprados nodo))
        (hijos nodo ! 1) niv eg))"
    using P.IH s1 by simp
  then show ?case
    using P.hyps
    by (cases "decorar_arbol (Some (saldo nodo, refrescos_comprados nodo)) (hijos nodo ! 1) niv eg")
      (simp add: decorar_P sel_set)
next
  case (P_corto padre nodo niv eg)
  have "forma_local nodo"
    using P_corto.prems(1) by (rule todos_aqui)
  with P_corto.hyps show ?case
    by (simp add: forma_local_def)
next
  case (C_epsilon padre nodo niv eg)
  from C_epsilon.hyps(3) obtain e where h: "hijos nodo = [e]"
    by (cases "hijos nodo") auto
  have "todos forma_local e"
    using todos_hijos [OF C_epsilon.prems(1)] h by simp
  then have "anidacion e = 0"
    using C_epsilon.hyps(4) h by (simp add: anidacion_hoja)
  then have "anidacion nodo = 0"
    using h C_epsilon.hyps(2) by (simp add: anidacion_eq [of nodo])
  with C_epsilon.hyps(1) C_epsilon.prems(3) show ?case
    by simp
next
  case (C_cadena padre nodo niv eg)
  from C_cadena.hyps(3) obtain a c where h: "hijos nodo = [a, c]"
    using longitud_2 by blast
  have "forma_local nodo"
    using C_cadena.prems(1) by (rule todos_aqui)
  with C_cadena.hyps(2) h have sa: "simbolo a = cp ''A''" and sc: "simbolo c = cp ''C''"
    by (simp_all add: forma_local_def forma_hijos_C_def)
  have ta: "todos forma_local a" and tc: "todos forma_local c"
    using todos_hijos [OF C_cadena.prems(1)] h by simp_all
  have an: "anidacion nodo = max (anidacion a) (anidacion c)"
    using h C_cadena.hyps(2) by (simp add: anidacion_eq [of nodo])
  obtain nodo_a eg1 where da:
    "decorar_arbol (Some (saldo nodo, refrescos_comprados nodo)) (hijos nodo ! 0) niv eg
       = (nodo_a, eg1)"
    by (cases "decorar_arbol (Some (saldo nodo, refrescos_comprados nodo)) (hijos nodo ! 0) niv eg")
  let ?sembrado = "set_refrescos (refrescos_comprados nodo_a)
      (set_saldo (saldo nodo_a) (hijos nodo ! 1))"
  obtain nodo_c eg2 where dc:
    "decorar_arbol (Some (saldo nodo_a, refrescos_comprados nodo_a)) ?sembrado niv eg1
       = (nodo_c, eg2)"
    by (cases "decorar_arbol (Some (saldo nodo_a, refrescos_comprados nodo_a)) ?sembrado niv eg1")
  have m1: "length eg \<le> length eg1"
    using decorar_crece [of eg "Some (saldo nodo, refrescos_comprados nodo)" "hijos nodo ! 0" niv] da
    by simp
  have m2: "length eg1 \<le> length eg2"
    using decorar_crece [of eg1 "Some (saldo nodo_a, refrescos_comprados nodo_a)" ?sembrado niv] dc
    by simp
  have res: "decorar_arbol padre nodo niv eg =
      (extend_errores (errores nodo_a @ errores nodo_c)
         (set_refrescos (refrescos_comprados nodo_c)
            (set_valido (valido nodo_a \<and> valido nodo_c)
               (set_saldo (saldo nodo_c) (set_hijos [nodo_a, nodo_c] (set_nivel niv nodo))))),
       eg2)"
    using C_cadena.hyps da dc by (simp add: decorar_C_cadena)
  show ?case
  proof (cases "3 < niv + int (anidacion a)")
    case True
    then have "\<not> valido nodo_a \<and> length eg < length eg1"
      using C_cadena.IH(1) ta sa h da by simp
    with m2 show ?thesis
      by (simp add: res sel_set)
  next
    case False
    with an C_cadena.prems(3) have "3 < niv + int (anidacion c)"
      by simp
    then have "3 < niv + int (anidacion ?sembrado)"
      using h by (simp add: anidacion_sembrado)
    moreover have "todos forma_local ?sembrado"
      using tc h by (simp add: todos_forma_sembrado)
    moreover have "simbolo ?sembrado \<in> {cp ''P'', cp ''C'', cp ''A''}"
      using sc h by (simp add: sel_set)
    ultimately have "\<not> valido nodo_c \<and> length eg1 < length eg2"
      using C_cadena.IH(2) [OF da] dc by simp
    with m1 show ?thesis
      by (simp add: res sel_set)
  qed
next
  case (C_otro padre nodo niv eg)
  have "forma_local nodo"
    using C_otro.prems(1) by (rule todos_aqui)
  with C_otro.hyps have "hijos nodo = []"
    by (auto simp add: forma_local_def forma_hijos_C_def)
  then have "anidacion nodo = 0"
    using C_otro.hyps(2) by (simp add: anidacion_eq [of nodo])
  with C_otro.hyps(1) C_otro.prems(3) show ?case
    by simp
next
  case (A_hoja padre nodo niv eg)
  from A_hoja.hyps(3) obtain e where h: "hijos nodo = [e]"
    by (cases "hijos nodo") auto
  have "todos forma_local e"
    using todos_hijos [OF A_hoja.prems(1)] h by simp
  moreover have "simbolo e \<notin> {cp ''P'', cp ''C'', cp ''A''}"
    using A_hoja.hyps(4) h by auto
  ultimately have "anidacion e = 0"
    by (rule anidacion_hoja)
  then have "anidacion nodo = 0"
    using h by (simp add: anidacion_eq [of nodo])
  with A_hoja.hyps(1) A_hoja.prems(3) show ?case
    by simp
next
  case (A_bloque padre nodo niv eg)
  have f: "forma_local nodo"
    using A_bloque.prems(1) by (rule todos_aqui)
  with A_bloque.hyps(2,3) have s0: "simbolo (hijos nodo ! 0) = cp ''{''"
    and s1: "simbolo (hijos nodo ! 1) = cp ''C''" and s2: "simbolo (hijos nodo ! 2) = cp ''}''"
    by (auto simp add: forma_local_def forma_hijos_A_def)
  from A_bloque.hyps(3) obtain a b c where h: "hijos nodo = [a, b, c]"
    using longitud_3 by blast
  have ta: "todos forma_local a" and tb: "todos forma_local b" and tc: "todos forma_local c"
    using todos_hijos [OF A_bloque.prems(1)] h by simp_all
  have "anidacion a = 0" "anidacion c = 0"
    using ta tc s0 s2 h by (simp_all add: anidacion_hoja)
  then have "anidacion nodo = 1 + anidacion b"
    using h A_bloque.hyps(2) by (simp add: anidacion_eq [of nodo])
  with A_bloque.prems(3) have "3 < (niv + 1) + int (anidacion (hijos nodo ! 1))"
    using h by simp
  moreover have "todos forma_local (hijos nodo ! 1)"
    using tb h by simp
  ultimately have
    "\<not> valido (fst (decorar_arbol (Some (saldo nodo, refrescos_comprados nodo))
        (hijos nodo ! 1) (niv + 1) eg)) \<and>
     length eg < length (snd (decorar_arbol (Some (saldo nodo, refrescos_comprados nodo))
        (hijos nodo ! 1) (niv + 1) eg))"
    using A_bloque.IH s1 by simp
  then show ?case
    using A_bloque.hyps
    by (cases "decorar_arbol (Some (saldo nodo, refrescos_comprados nodo)) (hijos nodo ! 1)
        (niv + 1) eg")
      (simp add: decorar_A_bloque sel_set)
next
  case (A_otro padre nodo niv eg)
  have "forma_local nodo"
    using A_otro.prems(1) by (rule todos_aqui)
  with A_otro.hyps have "hijos nodo = []"
    by (auto simp add: forma_local_def forma_hijos_A_def)
  then have "anidacion nodo = 0"
    by (simp add: anidacion_eq [of nodo])
  with A_otro.hyps(1) A_otro.prems(3) show ?case
    by simp
next
  case (otro padre nodo niv eg)
  then show ?case by simp
qed

section \<open>The analysis of an accepted string\<close>

lemma analizar_cadena_acepta:
  "acepta cadena \<Longrightarrow>
   analizar_cadena eg0 cadena =
     (Some (fst (decorar_arbol None (construir_arbol cadena) 1 [])),
      valido (fst (decorar_arbol None (construir_arbol cadena) 1 [])) \<and>
        snd (decorar_arbol None (construir_arbol cadena) 1 []) = [],
      snd (decorar_arbol None (construir_arbol cadena) 1 []))"
  by (simp add: analizar_cadena_def validar_sintaxis_acepta Let_def split: prod.splits)

lemma construido_fresco: "construido n \<Longrightarrow> fresco n"
  by (simp add: construido_def)

lemma construido_forma: "construido n \<Longrightarrow> forma_local n"
  by (simp add: construido_def)

lemma fresco_en_rango: "fresco n \<Longrightarrow> en_rango n"
  by (simp add: fresco_def en_rango_def)

lemma fresco_sin_errores: "fresco n \<Longrightarrow> sin_errores n"
  by (simp add: fresco_def sin_errores_def)

lemma construir_arbol_en_rango: "todos en_rango (construir_arbol cadena)"
  using construir_arbol_construido [of cadena]
  by (rule todos_mono [where Q = construido, rotated]) (simp add: construido_def fresco_en_rango)

lemma construir_arbol_sin_errores: "todos sin_errores (construir_arbol cadena)"
  using construir_arbol_construido [of cadena]
  by (rule todos_mono [where Q = construido, rotated]) (simp add: construido_def fresco_sin_errores)

lemma construir_arbol_forma: "todos forma_local (construir_arbol cadena)"
  using construir_arbol_construido [of cadena]
  by (rule todos_mono [where Q = construido, rotated]) (simp add: construido_def)

text \<open>
  The \<open>errores\<close> fields of all the nodes of a tree, concatenated; a node comes before its
  children, the children in their order.
\<close>

fun errores_de_nodos :: "Nodo \<Rightarrow> mensaje list" where
  "errores_de_nodos (Nodo s t h sa v ni r e) = e @ concat (map errores_de_nodos h)"

text \<open>The equations that evaluate an analysis on a given string.\<close>

lemmas evaluar =
  analizar_cadena_def validar_sintaxis_def acepta_def construir_arbol_def
  procesar_contenido.simps bucle.simps buscar_cierre.simps decorar_arbol.simps
  strip_def es_espacio_def startswith_def endswith_def recorte_def rebanada_def
  nuevo_nodo_def set_hijos_def set_saldo_def set_valido_def set_nivel_def set_refrescos_def
  extend_errores_def saldo_padre_def refrescos_padre_def Let_def

section \<open>Chains that end in epsilon\<close>

text \<open>
  A \<open>C\<close> node is closed when the chain of \<open>C\<close> nodes that starts in it, each the second
  child of the one before, ends in a \<open>C\<close> node whose only child is the epsilon leaf.
\<close>

function cadena_cerrada :: "Nodo \<Rightarrow> bool" where
  "cadena_cerrada n =
     (if simbolo n \<noteq> cp ''C'' then False
      else if length (hijos n) = 1 \<and> simbolo (hijos n ! 0) = EPSILON then True
      else if length (hijos n) = 2 then cadena_cerrada (hijos n ! 1)
      else False)"
  by pat_completeness auto
termination
  by (relation "measure size") (simp_all add: size_hijos_nth)

declare cadena_cerrada.simps [simp del]

lemma sembrar_mismo: "set_refrescos (refrescos_comprados n) (set_saldo (saldo n) n) = n"
  by (cases n) (simp add: set_refrescos_def set_saldo_def)

lemma cadena_cerrada_sembrado:
  "cadena_cerrada (set_refrescos r (set_saldo s n)) = cadena_cerrada n"
  by (subst (1 2) cadena_cerrada.simps) (simp add: sel_set)

lemma decorar_cerrada_sembrado:
  "cadena_cerrada n \<Longrightarrow> niv \<le> 3 \<Longrightarrow>
   saldo (fst (decorar_arbol p (set_refrescos r (set_saldo s n)) niv eg)) = 0 \<and>
   refrescos_comprados (fst (decorar_arbol p (set_refrescos r (set_saldo s n)) niv eg)) = 0"
proof (induction n arbitrary: p r s eg rule: cadena_cerrada.induct)
  case (1 n)
  let ?n = "set_refrescos r (set_saldo s n)"
  from "1.prems"(1) have sC: "simbolo n = cp ''C''"
    by (subst (asm) cadena_cerrada.simps) (simp split: if_splits)
  show ?case
  proof (cases "length (hijos n) = 1 \<and> simbolo (hijos n ! 0) = EPSILON")
    case True
    then show ?thesis
      using sC "1.prems"(2) by (simp add: decorar_C_epsilon sel_set)
  next
    case False
    with "1.prems"(1) sC have l: "length (hijos n) = 2" and c: "cadena_cerrada (hijos n ! 1)"
      by (subst (asm) cadena_cerrada.simps, simp split: if_splits)+
    obtain nodo_a eg1 where da:
      "decorar_arbol (Some (saldo ?n, refrescos_comprados ?n)) (hijos ?n ! 0) niv eg
         = (nodo_a, eg1)"
      by (cases "decorar_arbol (Some (saldo ?n, refrescos_comprados ?n)) (hijos ?n ! 0) niv eg")
    let ?sembrado = "set_refrescos (refrescos_comprados nodo_a)
        (set_saldo (saldo nodo_a) (hijos n ! 1))"
    obtain nodo_c eg2 where dc:
      "decorar_arbol (Some (saldo nodo_a, refrescos_comprados nodo_a)) ?sembrado niv eg1
         = (nodo_c, eg2)"
      by (cases "decorar_arbol (Some (saldo nodo_a, refrescos_comprados nodo_a)) ?sembrado niv eg1")
    have "saldo (fst (decorar_arbol (Some (saldo nodo_a, refrescos_comprados nodo_a))
             ?sembrado niv eg1)) = 0 \<and>
          refrescos_comprados (fst (decorar_arbol (Some (saldo nodo_a, refrescos_comprados nodo_a))
             ?sembrado niv eg1)) = 0"
      using sC False l c "1.prems"(2) by (intro "1.IH") simp_all
    with dc have "saldo nodo_c = 0 \<and> refrescos_comprados nodo_c = 0"
      by simp
    moreover have "decorar_arbol p ?n niv eg =
        (extend_errores (errores nodo_a @ errores nodo_c)
           (set_refrescos (refrescos_comprados nodo_c)
              (set_valido (valido nodo_a \<and> valido nodo_c)
                 (set_saldo (saldo nodo_c) (set_hijos [nodo_a, nodo_c] (set_nivel niv ?n))))),
         eg2)"
      using sC l "1.prems"(2) da dc
      by (simp add: decorar_C_cadena [of niv ?n] sel_set)
    ultimately show ?thesis
      by (simp add: sel_set)
  qed
qed

lemma decorar_cerrada:
  "cadena_cerrada n \<Longrightarrow> niv \<le> 3 \<Longrightarrow>
   saldo (fst (decorar_arbol p n niv eg)) = 0 \<and>
   refrescos_comprados (fst (decorar_arbol p n niv eg)) = 0"
  using decorar_cerrada_sembrado [of n niv p "refrescos_comprados n" "saldo n" eg]
  by (simp add: sembrar_mismo)


lemma es_espacio_32: "es_espacio (ch CHR '' '')"
  by (simp add: es_espacio_def)

lemma strip_prefijo: "\<exists>zs. dropWhile es_espacio s = strip s @ zs"
proof -
  let ?ys = "dropWhile es_espacio s"
  have "rev ?ys = takeWhile es_espacio (rev ?ys) @ dropWhile es_espacio (rev ?ys)"
    by simp
  then have "rev (rev ?ys) =
      rev (dropWhile es_espacio (rev ?ys)) @ rev (takeWhile es_espacio (rev ?ys))"
    by (metis rev_append)
  then show ?thesis
    by (auto simp add: strip_def)
qed

lemma strip_hd: "strip s \<noteq> [] \<Longrightarrow> \<not> es_espacio (strip s ! 0)"
proof -
  assume ne: "strip s \<noteq> []"
  obtain zs where z: "dropWhile es_espacio s = strip s @ zs"
    using strip_prefijo by blast
  with ne have d: "dropWhile es_espacio s \<noteq> []"
    by auto
  then have "\<not> es_espacio (hd (dropWhile es_espacio s))"
    by (rule hd_dropWhile)
  moreover from z ne have "hd (dropWhile es_espacio s) = hd (strip s)"
    by simp
  ultimately show ?thesis
    using ne by (simp add: hd_conv_nth)
qed

lemma strip_no_vacio: "strip s \<noteq> [] \<Longrightarrow> \<exists>k < length s. \<not> es_espacio (s ! k)"
proof -
  assume ne: "strip s \<noteq> []"
  then have "\<not> es_espacio (strip s ! 0)"
    by (rule strip_hd)
  moreover have "strip s ! 0 \<in> set (strip s)"
    using ne by simp
  moreover have "set (strip s) \<subseteq> set s"
  proof -
    obtain zs where "dropWhile es_espacio s = strip s @ zs"
      using strip_prefijo by blast
    then have "set (strip s) \<subseteq> set (dropWhile es_espacio s)"
      by simp
    also have "\<dots> \<subseteq> set s"
      by (auto dest: set_dropWhileD)
    finally show ?thesis .
  qed
  ultimately obtain x where "x \<in> set s" "\<not> es_espacio x"
    by blast
  then show ?thesis
    by (auto simp add: in_set_conv_nth)
qed

definition hay_ficha :: "cadena \<Rightarrow> nat \<Rightarrow> bool" where
  "hay_ficha c i \<longleftrightarrow> (\<exists>k. i \<le> k \<and> k < length c \<and> c ! k \<noteq> ch CHR '' '')"

lemma hay_ficha_strip: "strip (drop i c) \<noteq> [] \<Longrightarrow> hay_ficha c i"
proof -
  assume "strip (drop i c) \<noteq> []"
  then obtain k where k: "k < length (drop i c)" "\<not> es_espacio (drop i c ! k)"
    using strip_no_vacio by blast
  then have "i + k < length c" "c ! (i + k) \<noteq> ch CHR '' ''"
    using es_espacio_32 by auto
  then show ?thesis
    unfolding hay_ficha_def by (intro exI [of _ "i + k"]) simp
qed

lemma cadena_cerrada_epsilon:
  "cadena_cerrada (set_hijos [nuevo_nodo EPSILON t] (nuevo_nodo (cp ''C'') t'))"
  by (subst cadena_cerrada.simps) (simp add: sel_set nuevo_nodo_def)

lemma cadena_cerrada_par:
  "cadena_cerrada c \<Longrightarrow> cadena_cerrada (set_hijos [a, c] (nuevo_nodo (cp ''C'') t'))"
  by (subst cadena_cerrada.simps) (simp add: sel_set nuevo_nodo_def)

lemma bucle_induct [case_names fin espacio token]:
  fixes Q :: "cadena \<Rightarrow> nat \<Rightarrow> bool"
  assumes fin: "\<And>c i. \<not> i < length c \<Longrightarrow> Q c i"
    and espacio: "\<And>c i. i < length c \<Longrightarrow> c ! i = ch CHR '' '' \<Longrightarrow> Q c (i + 1) \<Longrightarrow> Q c i"
    and token: "\<And>c i. i < length c \<Longrightarrow> c ! i \<noteq> ch CHR '' '' \<Longrightarrow>
        (strip (drop (siguiente c i) c) \<noteq> [] \<Longrightarrow> Q c (siguiente c i)) \<Longrightarrow> Q c i"
  shows "Q c i"
proof (rule procesar_bucle_induct(2) [where P = "\<lambda>c. True" and Q = Q])
  show "True" ..
next
  fix c :: cadena and i
  assume "\<not> i < length c"
  then show "Q c i" by (rule fin)
next
  fix c :: cadena and i
  assume "i < length c" "c ! i = ch CHR '' ''" "Q c (i + 1)"
  then show "Q c i" by (rule espacio)
next
  fix c :: cadena and i
  assume a: "i < length c" "c ! i \<noteq> ch CHR '' ''"
    and b: "strip (drop (siguiente c i) c) \<noteq> [] \<Longrightarrow> Q c (siguiente c i)"
  from a b show "Q c i" by (rule token)
qed

lemma bucle_cerrada:
  "hay_ficha c i \<Longrightarrow>
   cadena_cerrada (set_hijos (bucle c i) (nuevo_nodo (cp ''C'') (cp ''no_terminal'')))"
proof (induction c i rule: bucle_induct)
  case (fin c i)
  then show ?case
    by (auto simp add: hay_ficha_def)
next
  case (espacio c i)
  from espacio.prems obtain k where k: "i \<le> k" "k < length c" "c ! k \<noteq> ch CHR '' ''"
    unfolding hay_ficha_def by blast
  with espacio.hyps(2) have "k \<noteq> i"
    by auto
  with k have "hay_ficha c (i + 1)"
    unfolding hay_ficha_def by (intro exI [of _ k]) simp
  then show ?case
    using espacio.IH espacio.hyps by (simp add: bucle_espacio)
next
  case (token c i)
  let ?C = "set_hijos
        (if strip (drop (siguiente c i) c) = [] then [nuevo_nodo EPSILON (cp ''terminal'')]
         else bucle c (siguiente c i))
        (nuevo_nodo (cp ''C'') (cp ''no_terminal''))"
  have "cadena_cerrada ?C"
  proof (cases "strip (drop (siguiente c i) c) = []")
    case True
    then show ?thesis
      using cadena_cerrada_epsilon [of "cp ''terminal''" "cp ''no_terminal''"] by simp
  next
    case False
    then have "hay_ficha c (siguiente c i)"
      by (rule hay_ficha_strip)
    with False token.IH show ?thesis
      by simp
  qed
  then show ?case
    using cadena_cerrada_par [of ?C _ "cp ''no_terminal''"]
    by (simp add: bucle_token [OF token.hyps(1,2)])
qed

lemma construir_arbol_cerrada: "cadena_cerrada (hijos (construir_arbol cadena) ! 1)"
proof -
  let ?c = "strip (recorte cadena)"
  have "cadena_cerrada
      (set_hijos (procesar_contenido ?c) (nuevo_nodo (cp ''C'') (cp ''no_terminal'')))"
  proof (cases "?c = []")
    case True
    then show ?thesis
      using cadena_cerrada_epsilon [of "cp ''terminal''" "cp ''no_terminal''"]
      by (subst procesar_contenido.simps) simp
  next
    case False
    then have "\<not> es_espacio (?c ! 0)"
      unfolding recorte_def by (rule strip_hd)
    then have "?c ! 0 \<noteq> ch CHR '' ''"
      using es_espacio_32 by auto
    with False have "hay_ficha ?c 0"
      unfolding hay_ficha_def by (intro exI [of _ 0]) simp
    then have "cadena_cerrada
        (set_hijos (bucle ?c 0) (nuevo_nodo (cp ''C'') (cp ''no_terminal'')))"
      by (rule bucle_cerrada)
    with False show ?thesis
      by (subst procesar_contenido.simps) simp
  qed
  then show ?thesis
    by (simp add: construir_arbol_def Let_def sel_set)
qed

section \<open>Nested blocks and leaves\<close>

text \<open>
  In a node \<open>A \<rightarrow> { C }\<close> the inner node is a \<open>C\<close> node whose balance and purchase count
  are 0, the values \<^verbatim>\<open>Nodo.__init__\<close> gives them.
\<close>

definition bloque_aislado :: "Nodo \<Rightarrow> bool" where
  "bloque_aislado n \<longleftrightarrow>
     (simbolo n = cp ''A'' \<and> length (hijos n) = 3 \<longrightarrow>
        simbolo (hijos n ! 1) = cp ''C'' \<and> saldo (hijos n ! 1) = 0 \<and>
        refrescos_comprados (hijos n ! 1) = 0)"

text \<open>The node \<open>A \<rightarrow> { C }\<close> of an empty block, as \<open>bucle\<close> builds it.\<close>

definition nodo_bloque :: Nodo where
  "nodo_bloque =
     set_hijos
       [nuevo_nodo (cp ''{'') (cp ''terminal''),
        set_hijos [nuevo_nodo EPSILON (cp ''terminal'')]
          (nuevo_nodo (cp ''C'') (cp ''no_terminal'')),
        nuevo_nodo (cp ''}'') (cp ''terminal'')]
       (nuevo_nodo (cp ''A'') (cp ''no_terminal''))"

text \<open>
  The symbols of the terminal leaves of a tree, from left to right; the same without the
  braces and epsilon; and the characters \<^verbatim>\<open>$\<close>, \<^verbatim>\<open>R\<close>, \<^verbatim>\<open><\<close> of a string, in their order.
\<close>

fun hojas :: "Nodo \<Rightarrow> cadena list" where
  "hojas (Nodo s t h sa v ni r e) =
     (if h = [] then (if t = cp ''terminal'' then [s] else [])
      else concat (map hojas h))"

definition hojas_de_fichas :: "Nodo \<Rightarrow> cadena list" where
  "hojas_de_fichas n = filter (\<lambda>s. s \<notin> {cp ''{'', cp ''}'', EPSILON}) (hojas n)"

definition fichas :: "cadena \<Rightarrow> cadena list" where
  "fichas cadena = map (\<lambda>c. [c]) (filter (\<lambda>c. c \<in> set (cp ''$R<'')) cadena)"

lemma todos_de_todos: "(\<And>x. todos Q x \<Longrightarrow> R x) \<Longrightarrow> todos Q n \<Longrightarrow> todos R n"
proof (induction n rule: measure_induct_rule [of size])
  case (less n)
  have "todos R x" if "x \<in> set (hijos n)" for x
  proof -
    from that obtain i where "i < length (hijos n)" "x = hijos n ! i"
      by (auto simp add: in_set_conv_nth)
    then have "size x < size n"
      by (simp add: size_hijos_nth)
    moreover have "todos Q x"
      using less.prems(2) that by (rule todos_hijos)
    ultimately show ?thesis
      using less.IH less.prems(1) by blast
  qed
  moreover have "R n"
    using less.prems by blast
  ultimately show ?case
    by (simp add: todos_iff [of R n])
qed

lemma construido_bloque_aislado:
  assumes "todos construido x"
  shows "bloque_aislado x"
  unfolding bloque_aislado_def
proof (intro impI)
  assume a: "simbolo x = cp ''A'' \<and> length (hijos x) = 3"
  have "forma_local x"
    using todos_aqui [OF assms] by (simp add: construido_def)
  with a have s: "simbolo (hijos x ! 1) = cp ''C''"
    by (auto simp add: forma_local_def forma_hijos_A_def)
  have "hijos x ! 1 \<in> set (hijos x)"
    using a by simp
  then have "todos construido (hijos x ! 1)"
    using assms by (simp add: todos_iff [of construido x])
  then have "fresco (hijos x ! 1)"
    using todos_aqui [of construido "hijos x ! 1"] by (simp add: construido_def)
  with s show "simbolo (hijos x ! 1) = cp ''C'' \<and> saldo (hijos x ! 1) = 0 \<and>
        refrescos_comprados (hijos x ! 1) = 0"
    by (simp add: fresco_def)
qed

lemma construir_arbol_bloque_aislado: "todos bloque_aislado (construir_arbol cadena)"
  using construido_bloque_aislado construir_arbol_construido by (rule todos_de_todos)

section \<open>Claims\<close>

text \<open>
  C4.  For every input string rejected by the syntax validator, the analysis returns no
  tree, the verdict \<open>False\<close>, and a global error list that holds exactly one diagnostic.
\<close>

theorem C4_rechazo_sin_arbol:
  "\<not> acepta cadena \<Longrightarrow> \<exists>m. analizar_cadena eg cadena = (None, False, [m])"
proof -
  assume r: "\<not> acepta cadena"
  then obtain m where "snd (validar_sintaxis [] cadena) = [m]"
    using validar_sintaxis_rechazo by blast
  with r have "validar_sintaxis [] cadena = (False, [m])"
    by (simp add: acepta_def prod_eq_iff)
  then show ?thesis
    by (simp add: analizar_cadena_def)
qed

theorem C4_rechazo_sin_arbol_witness:
  "\<not> acepta (cp ''{$'') \<and> (\<exists>m. analizar_cadena [] (cp ''{$'') = (None, False, [m]))"
proof -
  have h: "\<not> acepta (cp ''{$'')"
    by code_simp
  show ?thesis
    using h C4_rechazo_sin_arbol [OF h] by simp
qed

text \<open>
  C9.  The result of an analysis (tree with all its attributes, verdict and global error
  list, order included) depends on the input string only, not on the global error list
  that the call finds: the list is reset at the start of the call.  In particular a second
  call on the same string, made in the state the first call leaves, gives the same result.
\<close>

theorem C9_determinismo:
  "analizar_cadena eg1 cadena = analizar_cadena eg2 cadena \<and>
   analizar_cadena (snd (snd (analizar_cadena eg1 cadena))) cadena = analizar_cadena eg1 cadena"
  by (simp add: analizar_cadena_def)

theorem C9_determinismo_witness:
  "analizar_cadena [NoHayMonedas] (cp ''{ $ R }'') = analizar_cadena [] (cp ''{ $ R }'')"
  using C9_determinismo [of "[NoHayMonedas]" "cp ''{ $ R }''" "[]"] by simp

text \<open>
  C7.  An \<open>A\<close> node whose only child is \<open>R\<close>, decorated (below the nesting limit) with the
  balance \<open>b\<close> and the purchase count \<open>c\<close> of its parent: if \<open>b < 3\<close> the node is invalid,
  gets the diagnostic "insufficient balance" and keeps \<open>b\<close> and \<open>c\<close>; otherwise if
  \<open>c \<ge> 3\<close> it is invalid, gets the diagnostic "purchase quota exceeded" and keeps \<open>b\<close>
  and \<open>c\<close>; otherwise it is valid with balance \<open>b - 3\<close> and count \<open>c + 1\<close>.  So when both
  \<open>b < 3\<close> and \<open>c \<ge> 3\<close>, the diagnostic is the one for the balance.  The global list is
  not touched.
\<close>

theorem C7_compra:
  assumes "niv \<le> 3" "simbolo nodo = cp ''A''" "length (hijos nodo) = 1"
    "simbolo (hijos nodo ! 0) = cp ''R''"
  shows "\<exists>n'. decorar_arbol (Some (b, c)) nodo niv eg = (n', eg) \<and>
     (if b < 3 then
        \<not> valido n' \<and> errores n' = errores nodo @ [SaldoInsuficiente b] \<and>
        saldo n' = b \<and> refrescos_comprados n' = c
      else if c \<ge> 3 then
        \<not> valido n' \<and> errores n' = errores nodo @ [ExcedeMaximoRefrescos] \<and>
        saldo n' = b \<and> refrescos_comprados n' = c
      else
        valido n' \<and> errores n' = errores nodo \<and>
        saldo n' = b - 3 \<and> refrescos_comprados n' = c + 1)"
  using assms
  by (simp add: decorar_A_refresco saldo_padre_def refrescos_padre_def sel_set)

theorem C7_compra_witness:
  "(1::int) \<le> 3 \<and> simbolo nodo_R = cp ''A'' \<and> length (hijos nodo_R) = 1 \<and>
   simbolo (hijos nodo_R ! 0) = cp ''R'' \<and>
   (\<exists>n'. decorar_arbol (Some (2, 3)) nodo_R 1 [] = (n', []) \<and>
      \<not> valido n' \<and> errores n' = [SaldoInsuficiente 2] \<and>
      saldo n' = 2 \<and> refrescos_comprados n' = 3)"
proof -
  have h: "(1::int) \<le> 3" "simbolo nodo_R = cp ''A''" "length (hijos nodo_R) = 1"
    "simbolo (hijos nodo_R ! 0) = cp ''R''" "errores nodo_R = []"
    by (simp_all add: nodo_R_def nuevo_nodo_def set_hijos_def)
  show ?thesis
    using h C7_compra [OF h(1-4), of 2 3 "[]"] by simp
qed

text \<open>
  C10.  For every accepted string the analysis returns a tree, and in every node of that
  tree the balance is not negative and the purchase count lies between 0 and 3.
\<close>

theorem C10_rangos:
  assumes "acepta cadena"
  shows "\<exists>raiz v eg. analizar_cadena eg0 cadena = (Some raiz, v, eg) \<and> todos en_rango raiz"
proof -
  have "padre_en_rango None"
    by (simp add: padre_en_rango_def saldo_padre_def refrescos_padre_def)
  then have "todos en_rango (fst (decorar_arbol None (construir_arbol cadena) 1 []))"
    using construir_arbol_en_rango by (rule decorar_en_rango [rotated])
  then show ?thesis
    using assms by (simp add: analizar_cadena_acepta)
qed

theorem C10_rangos_witness:
  "acepta (cp ''{ $ $ $ R < }'') \<and>
   (\<exists>raiz v eg. analizar_cadena [] (cp ''{ $ $ $ R < }'') = (Some raiz, v, eg) \<and>
      todos en_rango raiz)"
proof -
  have h: "acepta (cp ''{ $ $ $ R < }'')"
    by (simp add: evaluar)
  show ?thesis
    using h C10_rangos [OF h, of "[]"] by simp
qed

text \<open>
  C1, at the accepted string \<^verbatim>\<open>{ $ R }\<close>.  The claim is that the global error list equals
  the concatenation of the \<open>errores\<close> fields of the nodes of the returned tree.  The purchase
  fails for lack of balance and the verdict is \<open>False\<close>; the diagnostic is in the \<open>errores\<close>
  field of the root (and of the \<open>A\<close> node and the two \<open>C\<close> nodes below it), but the global
  list is empty: the branch for \<open>R\<close> appends to \<^verbatim>\<open>nodo.errores\<close> only, where the nesting
  gate appends to \<^verbatim>\<open>nodo.errores\<close> and to \<^verbatim>\<open>self.errores_globales\<close>.
\<close>

theorem C1_errores_globales_vacios:
  "acepta (cp ''{ $ R }'') \<and>
   fst (snd (analizar_cadena [] (cp ''{ $ R }''))) = False \<and>
   snd (snd (analizar_cadena [] (cp ''{ $ R }''))) = [] \<and>
   errores (the (fst (analizar_cadena [] (cp ''{ $ R }'')))) = [SaldoInsuficiente 1] \<and>
   errores_de_nodos (the (fst (analizar_cadena [] (cp ''{ $ R }'')))) =
     [SaldoInsuficiente 1, SaldoInsuficiente 1, SaldoInsuficiente 1, SaldoInsuficiente 1]"
  by (simp add: evaluar)

text \<open>
  C5.  For every accepted string whose tree holds a block with content at nesting depth
  greater than 3 (at least three blocks \<open>A \<rightarrow> { C }\<close> inside one another below the root
  block), the analysis returns a tree and the verdict \<open>False\<close>: the root is invalid and the
  global list holds the nesting diagnostic.  A node decorated at a depth greater than 3 gets
  its depth, is marked invalid and receives the nesting diagnostic, and nothing else
  happens: its children are left as they are, whatever they hold.
\<close>

theorem C5_limite_anidacion:
  assumes "acepta cadena" "3 \<le> anidacion (construir_arbol cadena)"
  shows "(\<exists>raiz eg. analizar_cadena eg0 cadena = (Some raiz, False, eg) \<and>
            \<not> valido raiz \<and> ExcedeLimite \<in> set eg) \<and>
         (\<forall>padre nodo niv eg. 3 < niv \<longrightarrow>
            decorar_arbol padre nodo niv eg =
              (extend_errores [ExcedeLimiteNivel niv] (set_valido False (set_nivel niv nodo)),
               eg @ [ExcedeLimite]))"
proof -
  let ?r = "decorar_arbol None (construir_arbol cadena) 1 []"
  have s: "simbolo (construir_arbol cadena) \<in> {cp ''P'', cp ''C'', cp ''A''}"
    by (simp add: construir_arbol_def Let_def sel_set nuevo_nodo_def)
  have d: "3 < 1 + int (anidacion (construir_arbol cadena))"
    using assms(2) by simp
  have p: "\<not> valido (fst ?r) \<and> snd ?r \<noteq> []"
    using decorar_profundo [OF construir_arbol_forma s d, of None "[]"] by auto
  have "snd ?r = globales_de (errores (fst ?r))"
    using decorar_globales [OF construir_arbol_sin_errores, of None cadena 1 "[]"] by simp
  then have "set (snd ?r) \<subseteq> {ExcedeLimite}"
    by (auto simp add: globales_de_def)
  moreover from p have "set (snd ?r) \<noteq> {}"
    by simp
  ultimately have "ExcedeLimite \<in> set (snd ?r)"
    by (auto simp add: subset_singleton_iff)
  with p have "\<exists>raiz eg. analizar_cadena eg0 cadena = (Some raiz, False, eg) \<and>
            \<not> valido raiz \<and> ExcedeLimite \<in> set eg"
    using assms(1) by (simp add: analizar_cadena_acepta)
  then show ?thesis
    by (simp add: decorar_limite)
qed

theorem C5_limite_anidacion_witness:
  "acepta (cp ''{ { { { $ $ $ R } } } }'') \<and>
   3 \<le> anidacion (construir_arbol (cp ''{ { { { $ $ $ R } } } }'')) \<and>
   (\<exists>raiz eg. analizar_cadena [] (cp ''{ { { { $ $ $ R } } } }'') = (Some raiz, False, eg) \<and>
      \<not> valido raiz \<and> ExcedeLimite \<in> set eg)"
proof -
  have h: "acepta (cp ''{ { { { $ $ $ R } } } }'')"
    "3 \<le> anidacion (construir_arbol (cp ''{ { { { $ $ $ R } } } }''))"
    by (simp_all add: evaluar)
  show ?thesis
    using h C5_limite_anidacion [OF h, of "[]"] by simp
qed

text \<open>
  C8.  For every accepted string the root of the returned tree has balance 0 (and purchase
  count 0), whatever the tokens leave: the chain of the root block is closed, the rule for
  \<open>C \<rightarrow> \<epsilon>\<close> sets balance and count to 0, and every \<open>C\<close> node of a chain takes its final
  balance and count from the next one.
\<close>

theorem C8_saldo_final:
  assumes "acepta cadena"
  shows "(\<exists>raiz v eg. analizar_cadena eg0 cadena = (Some raiz, v, eg) \<and>
            saldo raiz = 0 \<and> refrescos_comprados raiz = 0) \<and>
         cadena_cerrada (hijos (construir_arbol cadena) ! 1) \<and>
         (\<forall>padre nodo niv eg.
            niv \<le> 3 \<and> simbolo nodo = cp ''C'' \<and> length (hijos nodo) = 1 \<and>
            simbolo (hijos nodo ! 0) = EPSILON \<longrightarrow>
            decorar_arbol padre nodo niv eg =
              (set_refrescos 0 (set_valido True (set_saldo 0 (set_nivel niv nodo))), eg))"
proof -
  let ?t = "construir_arbol cadena"
  let ?r = "decorar_arbol None ?t 1 []"
  have sP: "simbolo ?t = cp ''P''" and l: "2 \<le> length (hijos ?t)"
    by (simp_all add: construir_arbol_def Let_def sel_set nuevo_nodo_def)
  obtain nodo_c eg1 where d:
    "decorar_arbol (Some (saldo ?t, refrescos_comprados ?t)) (hijos ?t ! 1) 1 [] = (nodo_c, eg1)"
    by (cases "decorar_arbol (Some (saldo ?t, refrescos_comprados ?t)) (hijos ?t ! 1) 1 []")
  have cc: "cadena_cerrada (hijos ?t ! 1)"
    by (rule construir_arbol_cerrada)
  have "saldo nodo_c = 0 \<and> refrescos_comprados nodo_c = 0"
    using decorar_cerrada [OF cc, where niv = 1 and eg = "[]"
        and p = "Some (saldo ?t, refrescos_comprados ?t)"] d
    by simp
  then have "saldo (fst ?r) = 0 \<and> refrescos_comprados (fst ?r) = 0"
    using sP l d by (simp add: decorar_P sel_set)
  then have "\<exists>raiz v eg. analizar_cadena eg0 cadena = (Some raiz, v, eg) \<and>
            saldo raiz = 0 \<and> refrescos_comprados raiz = 0"
    using assms by (simp add: analizar_cadena_acepta)
  then show ?thesis
    using construir_arbol_cerrada by (simp add: decorar_C_epsilon)
qed

theorem C8_saldo_final_witness:
  "acepta (cp ''{ $ $ }'') \<and>
   (\<exists>raiz v eg. analizar_cadena [] (cp ''{ $ $ }'') = (Some raiz, v, eg) \<and>
      saldo raiz = 0 \<and> refrescos_comprados raiz = 0)"
proof -
  have h: "acepta (cp ''{ $ $ }'')"
    by (simp add: evaluar)
  show ?thesis
    using h C8_saldo_final [OF h, of "[]"] by simp
qed

text \<open>
  C6.  A node \<open>A \<rightarrow> { C }\<close> decorated below the nesting limit: the inner \<open>C\<close> is decorated
  one level deeper, and its decoration does not depend on the enclosing state (it is the
  same with no parent at all, and in every tree built from a string the inner \<open>C\<close> starts
  with balance 0 and purchase count 0); the \<open>A\<close> node gets the balance and the purchase count
  of its parent, unchanged, whatever the inner block does; it is valid exactly when the
  inner \<open>C\<close> is valid, and it receives the diagnostics of the inner \<open>C\<close>.
\<close>

theorem C6_bloque:
  assumes "niv \<le> 3" "simbolo nodo = cp ''A''" "length (hijos nodo) = 3"
    "simbolo (hijos nodo ! 1) = cp ''C''"
  shows "(\<exists>nodo_c eg1 n'.
            decorar_arbol None (hijos nodo ! 1) (niv + 1) eg = (nodo_c, eg1) \<and>
            decorar_arbol padre nodo niv eg = (n', eg1) \<and>
            hijos n' = (hijos nodo)[1 := nodo_c] \<and>
            saldo n' = saldo_padre padre \<and>
            refrescos_comprados n' = refrescos_padre padre \<and>
            valido n' = valido nodo_c \<and>
            errores n' = errores nodo @ errores nodo_c) \<and>
         todos bloque_aislado (construir_arbol cadena)"
proof -
  obtain nodo_c eg1 where d: "decorar_arbol None (hijos nodo ! 1) (niv + 1) eg = (nodo_c, eg1)"
    by (cases "decorar_arbol None (hijos nodo ! 1) (niv + 1) eg")
  from assms(4) have
    "decorar_arbol (Some (saldo nodo, refrescos_comprados nodo)) (hijos nodo ! 1) (niv + 1) eg
       = (nodo_c, eg1)"
    using d decorar_padre_irrelevante [of "hijos nodo ! 1" _ "niv + 1" eg None] by simp
  with assms d show ?thesis
    by (simp add: decorar_A_bloque sel_set construir_arbol_bloque_aislado)
qed

theorem C6_bloque_witness:
  "(1::int) \<le> 3 \<and> simbolo nodo_bloque = cp ''A'' \<and> length (hijos nodo_bloque) = 3 \<and>
   simbolo (hijos nodo_bloque ! 1) = cp ''C'' \<and>
   (\<exists>nodo_c eg1 n'.
      decorar_arbol None (hijos nodo_bloque ! 1) (1 + 1) [] = (nodo_c, eg1) \<and>
      decorar_arbol (Some (5, 2)) nodo_bloque 1 [] = (n', eg1) \<and>
      hijos n' = (hijos nodo_bloque)[1 := nodo_c] \<and>
      saldo n' = 5 \<and> refrescos_comprados n' = 2 \<and>
      valido n' = valido nodo_c \<and>
      errores n' = errores nodo_bloque @ errores nodo_c)"
proof -
  have h: "(1::int) \<le> 3" "simbolo nodo_bloque = cp ''A''" "length (hijos nodo_bloque) = 3"
    "simbolo (hijos nodo_bloque ! 1) = cp ''C''"
    by (simp_all add: nodo_bloque_def nuevo_nodo_def set_hijos_def)
  show ?thesis
    using h C6_bloque [OF h, of "[]" "Some (5, 2)" "[]"]
    by (simp add: saldo_padre_def refrescos_padre_def)
qed

text \<open>
  C2, at the accepted string \<^verbatim>\<open>{$}{R}\<close>: the string holds the tokens \<^verbatim>\<open>$\<close> and \<^verbatim>\<open>R\<close>, the
  terminal leaves of the returned tree (braces and epsilon left out) are \<^verbatim>\<open>$\<close> alone.
\<close>

theorem C2_ficha_perdida:
  "acepta (cp ''{$}{R}'') \<and>
   fichas (cp ''{$}{R}'') = [cp ''$'', cp ''R''] \<and>
   hojas_de_fichas (the (fst (analizar_cadena [] (cp ''{$}{R}'')))) = [cp ''$'']"
  by (simp add: evaluar hojas_de_fichas_def fichas_def)

text \<open>
  C3, at the accepted string \<^verbatim>\<open>{{ }}\<close>: the \<open>C\<close> node of the inner block (the second child
  of the first \<open>A\<close> node under the root chain) has no children, so its chain does not end in
  epsilon.
\<close>

theorem C3_C_sin_hijos:
  "acepta (cp ''{{ }}'') \<and>
   simbolo (hijos (hijos (hijos (the (fst (analizar_cadena [] (cp ''{{ }}'')))) ! 1) ! 0) ! 1)
     = cp ''C'' \<and>
   hijos (hijos (hijos (hijos (the (fst (analizar_cadena [] (cp ''{{ }}'')))) ! 1) ! 0) ! 1)
     = [] \<and>
   \<not> cadena_cerrada
       (hijos (hijos (hijos (the (fst (analizar_cadena [] (cp ''{{ }}'')))) ! 1) ! 0) ! 1)"
  by (simp add: evaluar cadena_cerrada.simps)

end
